theory Spec2Isabelle
  imports Complex_Main "HOL-Library.Multiset" "HOL-Library.Sublist"
begin

section \<open>Values shared by the pages and the API routes\<close>

text \<open>
  Instants are milliseconds since the epoch, as \<^verbatim>\<open>Date.now()\<close> and
  \<^verbatim>\<open>new Date(iso).getTime()\<close> give them. JavaScript numbers are modelled as
  real numbers (and as integers where the program only ever holds whole values), so
  the rounding of IEEE doubles is outside the model. A function of the source that
  reads the clock takes its readings as arguments.
\<close>

type_synonym instant = int

datatype CrowdLabel = Low | Medium | High | Insane

datatype Confidence = ConfLow | ConfMedium | ConfHigh

datatype Trend = TrendUp | TrendDown | TrendFlat | TrendUnknown

text \<open>\<^verbatim>\<open>Math.round\<close>: the nearest integer, a half going up.\<close>

definition jsRound :: "real \<Rightarrow> int" where
  "jsRound x = \<lfloor>x + 1 / 2\<rfloor>"

text \<open>\<^verbatim>\<open>(now - new Date(created_at).getTime()) / 60000\<close>, not truncated.\<close>

definition ageMinutes :: "instant \<Rightarrow> instant \<Rightarrow> real" where
  "ageMinutes now t = real_of_int (now - t) / 60000"

definition labelFromScore :: "real \<Rightarrow> CrowdLabel" where
  "labelFromScore score =
     (if score < 1.6 then Low
      else if score < 2.4 then Medium
      else if score < 3.2 then High
      else Insane)"

fun labelToNumber :: "CrowdLabel \<Rightarrow> int" where
  "labelToNumber Low = 1"
| "labelToNumber Medium = 2"
| "labelToNumber High = 3"
| "labelToNumber Insane = 4"

subsection \<open>Confidence\<close>

text \<open>
  \<^verbatim>\<open>confidenceFrom(latestCreatedAt, reportCount)\<close> of \<^verbatim>\<open>app/page.tsx\<close> and of the
  venue page (the two copies are the same text). \<^verbatim>\<open>null\<close> is \<open>None\<close>.
\<close>

definition confidenceFrom :: "instant \<Rightarrow> instant option \<Rightarrow> int \<Rightarrow> Confidence" where
  "confidenceFrom now latestCreatedAt reportCount =
     (case latestCreatedAt of
        None \<Rightarrow> ConfLow
      | Some t \<Rightarrow>
          (let ageMin = max 0 (jsRound (real_of_int (now - t) / 60000))
           in if ageMin \<le> 10 \<and> reportCount \<ge> 3 then ConfHigh
              else if ageMin \<le> 25 \<and> reportCount \<ge> 2 then ConfMedium
              else ConfLow))"

text \<open>
  The rule as the specification words it, on the age in minutes of the most recent
  report (\<open>None\<close> when there is no report) and the report count.
\<close>

definition confidenceRule :: "real option \<Rightarrow> int \<Rightarrow> Confidence" where
  "confidenceRule age reportCount =
     (case age of
        None \<Rightarrow> ConfLow
      | Some a \<Rightarrow>
          (if a \<le> 10 \<and> reportCount \<ge> 3 then ConfHigh
           else if a \<le> 25 \<and> reportCount \<ge> 2 then ConfMedium
           else ConfLow))"

subsection \<open>Prediction\<close>

text \<open>\<^verbatim>\<open>predictLabel(currentScore, baselineScore)\<close>; \<open>blended\<close> is its local.\<close>

definition blended :: "real \<Rightarrow> real option \<Rightarrow> real" where
  "blended currentScore baselineScore =
     (case baselineScore of
        None \<Rightarrow> currentScore
      | Some b \<Rightarrow> 0.55 * b + 0.45 * currentScore)"

definition predictLabel :: "real \<Rightarrow> real option \<Rightarrow> CrowdLabel" where
  "predictLabel currentScore baselineScore = labelFromScore (blended currentScore baselineScore)"

section \<open>The decayed-consensus scorer\<close>

text \<open>
  \<^verbatim>\<open>computeDecayedScore(reports)\<close> is the same text (up to the names of two locals)
  in \<^verbatim>\<open>app/page.tsx\<close>, the venue page and the alert runner. A report is
  \<^verbatim>\<open>{ status: number; created_at: string }\<close>; the statuses stored are whole numbers.
\<close>

record report =
  status :: int
  created_at :: instant

text \<open>The first loop: the sums over the reports aged at most 30 minutes.\<close>

fun quickPass :: "instant \<Rightarrow> report list \<Rightarrow> real \<times> real \<Rightarrow> real \<times> real" where
  "quickPass now [] (quickWeightSum, quickScoreSum) = (quickWeightSum, quickScoreSum)"
| "quickPass now (r # rs) (quickWeightSum, quickScoreSum) =
     (let ageMin = ageMinutes now (created_at r)
      in if ageMin \<le> 30
         then (let w = exp (- ageMin / 30)
               in quickPass now rs (quickWeightSum + w, quickScoreSum + w * real_of_int (status r)))
         else quickPass now rs (quickWeightSum, quickScoreSum))"

definition consensusNum :: "instant \<Rightarrow> report list \<Rightarrow> int" where
  "consensusNum now reports =
     (if length reports > 0
      then (case quickPass now reports (0, 0) of
              (quickWeightSum, quickScoreSum) \<Rightarrow>
                if quickWeightSum > 0 then jsRound (quickScoreSum / quickWeightSum) else 2)
      else 2)"

text \<open>The second loop, over all reports, with the consensus of the first.\<close>

fun dampedPass :: "instant \<Rightarrow> int \<Rightarrow> report list \<Rightarrow> real \<times> real \<Rightarrow> real \<times> real" where
  "dampedPass now consensus [] (weightSum, scoreSum) = (weightSum, scoreSum)"
| "dampedPass now consensus (r # rs) (weightSum, scoreSum) =
     (let ageMin = ageMinutes now (created_at r);
          baseWeight = exp (- ageMin / 30);
          diff = \<bar>status r - consensus\<bar>;
          outlierMultiplier = (if diff \<ge> 2 then 0.25 else 1.0);
          w = baseWeight * outlierMultiplier
      in dampedPass now consensus rs (weightSum + w, scoreSum + w * real_of_int (status r)))"

definition computeDecayedScore :: "instant \<Rightarrow> report list \<Rightarrow> real" where
  "computeDecayedScore now reports =
     (case dampedPass now (consensusNum now reports) reports (0, 0) of
        (weightSum, scoreSum) \<Rightarrow> if weightSum > 0 then scoreSum / weightSum else 2)"

text \<open>
  The weight of a report in the final pass and the undamped exponentially weighted mean,
  as the specification words them.
\<close>

definition dampedWeight :: "instant \<Rightarrow> int \<Rightarrow> report \<Rightarrow> real" where
  "dampedWeight now consensus r =
     exp (- ageMinutes now (created_at r) / 30)
       * (if \<bar>status r - consensus\<bar> \<ge> 2 then 0.25 else 1.0)"

definition undampedMean :: "instant \<Rightarrow> report list \<Rightarrow> real" where
  "undampedMean now reports =
     (\<Sum>r\<leftarrow>reports. exp (- ageMinutes now (created_at r) / 30) * real_of_int (status r))
       / (\<Sum>r\<leftarrow>reports. exp (- ageMinutes now (created_at r) / 30))"

subsection \<open>Trend\<close>

text \<open>
  \<^verbatim>\<open>computeTrend(reports)\<close>. It reads the clock for the two windows, and each of its
  two calls of the scorer reads the clock again: \<open>now\<close>, \<open>nowCurrent\<close>, \<open>nowPrevious\<close>.
\<close>

definition computeTrend :: "instant \<Rightarrow> instant \<Rightarrow> instant \<Rightarrow> report list \<Rightarrow> Trend" where
  "computeTrend now nowCurrent nowPrevious reports =
     (let currentWindow = filter (\<lambda>r. ageMinutes now (created_at r) \<le> 30) reports;
          previousWindow =
            filter (\<lambda>r. ageMinutes now (created_at r) > 30 \<and> ageMinutes now (created_at r) \<le> 90)
              reports
      in if length currentWindow < 2 \<or> length previousWindow < 2 then TrendUnknown
         else (let currentScore = computeDecayedScore nowCurrent currentWindow;
                   previousScore = computeDecayedScore nowPrevious previousWindow;
                   diff = currentScore - previousScore
               in if diff \<ge> 0.25 then TrendUp
                  else if diff \<le> - 0.25 then TrendDown
                  else TrendFlat))"

section \<open>The store\<close>

text \<open>
  The tables the routes read and write (through the Supabase client), as lists of rows;
  \<^verbatim>\<open>venue_baselines\<close>, which the report route upserts on its key
  \<^verbatim>\<open>venue_id,dow,hour\<close>, as a map from that key.
\<close>

record report_row =
  r_venue_id :: string
  r_status :: int
  r_line_outside :: bool
  r_device_id :: string
  r_created_at :: instant

record baseline =
  mean_score :: real
  sample_n :: int

record subscription =
  sub_id :: string
  sub_venue_id :: string
  sub_device_id :: string
  sub_threshold :: int
  sub_active :: bool
  sub_created_at :: instant
  sub_last_triggered_at :: "instant option"

record venue =
  v_id :: string
  v_name :: string

record store =
  tbl_reports :: "report_row list"
  tbl_venue_baselines :: "string \<times> int \<times> int \<rightharpoonup> baseline"
  tbl_alert_subscriptions :: "subscription list"
  tbl_venues :: "venue list"

text \<open>
  The store is a collaborator that can fail: each call of the client returns data or an
  error. \<open>faults c = Some msg\<close> says that the call \<open>c\<close> of the request at hand fails
  with the message \<open>msg\<close>; the routes then answer as their error branches do. The
  failures the table \<^verbatim>\<open>alert_subscriptions\<close> itself decides on an insert (its primary
  key and its constraint \<^verbatim>\<open>unique_subscription\<close>) are modelled on the table. A body
  that is not JSON is answered 400 before any of this and is not a value of the body
  types below.
\<close>

datatype store_call =
    SelectLastReport | CountToday | InsertReport | SelectBaseline | UpsertBaseline
  | SelectSubscription | UpdateSubscription | InsertSubscription
  | SelectActive | SelectVenues | SelectReports | UpdateTriggered string

type_synonym faults = "store_call \<Rightarrow> string option"

datatype error_text =
    MissingFields | InvalidStatus | SlowDown int | DailyLimit | InvalidThreshold
  | SchemaCache | MultipleRows | DuplicateKey | StoreMessage string

datatype reply =
    ReplyOk
  | ReplyRun nat nat
  | ReplyError nat error_text

text \<open>
  The subscribe route and the alert runner test the message of a failed select for a
  stale schema cache.
\<close>

definition storeError :: "string \<Rightarrow> error_text" where
  "storeError errorMsg =
     (if sublist ''schema cache'' errorMsg \<or> sublist ''Could not find the table'' errorMsg
      then SchemaCache else StoreMessage errorMsg)"

section \<open>The report route\<close>

text \<open>
  \<^verbatim>\<open>POST /api/report\<close>. The body is the parsed JSON with its fields at their types;
  a field that is missing or falsy is the empty string or 0. The route reads the clock
  four times: for the cooldown, for the start of the day, at the insert (the column
  default of \<^verbatim>\<open>created_at\<close>) and for the bucket. The calendar of the runtime
  (\<^verbatim>\<open>setHours(0,0,0,0)\<close> and \<^verbatim>\<open>Intl.DateTimeFormat\<close> for America/Detroit) is a
  parameter.
\<close>

record report_body =
  b_venue_id :: string
  b_status :: int
  b_line_outside :: bool
  b_device_id :: string

record report_clock =
  at_guard :: instant
  at_daycap :: instant
  at_insert :: instant
  at_bucket :: instant

record calendar =
  startOfDay :: "instant \<Rightarrow> instant"
  getDowHourDetroit :: "instant \<Rightarrow> int \<times> int"

definition minutesBetween :: "instant \<Rightarrow> instant \<Rightarrow> real" where
  "minutesBetween a b = \<bar>real_of_int (a - b)\<bar> / 60000"

text \<open>
  Guardrail A, the select: the \<^verbatim>\<open>created_at\<close> of the newest report of the device
  for the venue, if any.
\<close>

definition lastReportAt :: "report_row list \<Rightarrow> string \<Rightarrow> string \<Rightarrow> instant option" where
  "lastReportAt rows venue_id device =
     (case filter (\<lambda>r. r_venue_id r = venue_id \<and> r_device_id r = device) rows of
        [] \<Rightarrow> None
      | x # xs \<Rightarrow> Some (fold max (map r_created_at xs) (r_created_at x)))"

text \<open>Guardrail A, the test: the wait in minutes of the rejection, if it rejects.\<close>

definition cooldownWait :: "instant \<Rightarrow> instant option \<Rightarrow> int option" where
  "cooldownWait now lastCreated =
     (case lastCreated of
        None \<Rightarrow> None
      | Some created \<Rightarrow>
          (let ageMin = minutesBetween now created
           in if ageMin < 10 then Some (max 1 \<lceil>10 - ageMin\<rceil>) else None))"

text \<open>Guardrail B: the reports of the device since the start of the day.\<close>

definition countToday :: "report_row list \<Rightarrow> string \<Rightarrow> instant \<Rightarrow> nat" where
  "countToday rows device since =
     length (filter (\<lambda>r. r_device_id r = device \<and> r_created_at r \<ge> since) rows)"

text \<open>The running mean of the bucket, from the row read (or none) and the status.\<close>

definition nextBaseline :: "baseline option \<Rightarrow> int \<Rightarrow> baseline" where
  "nextBaseline row s =
     (let prevMean = (case row of None \<Rightarrow> 2.0 | Some b \<Rightarrow> mean_score b);
          prevN = (case row of None \<Rightarrow> 0 | Some b \<Rightarrow> sample_n b);
          nextN = prevN + 1;
          nextMean = (prevMean * real_of_int prevN + real_of_int s) / real_of_int nextN
      in \<lparr>mean_score = nextMean, sample_n = nextN\<rparr>)"

definition updateBaseline :: "calendar \<Rightarrow> faults \<Rightarrow> report_clock \<Rightarrow> store \<Rightarrow> string \<Rightarrow> int \<Rightarrow> reply \<times> store" where
  "updateBaseline cal faults clk db venue_id s =
     (case getDowHourDetroit cal (at_bucket clk) of
        (dow, hour) \<Rightarrow>
          (case faults SelectBaseline of
             Some msg \<Rightarrow> (ReplyError 500 (StoreMessage msg), db)
           | None \<Rightarrow>
               (let row = nextBaseline (tbl_venue_baselines db (venue_id, dow, hour)) s
                in case faults UpsertBaseline of
                     Some msg \<Rightarrow> (ReplyError 500 (StoreMessage msg), db)
                   | None \<Rightarrow>
                       (ReplyOk,
                        db\<lparr>tbl_venue_baselines :=
                             (tbl_venue_baselines db)((venue_id, dow, hour) \<mapsto> row)\<rparr>))))"

definition reportPOST :: "calendar \<Rightarrow> faults \<Rightarrow> report_clock \<Rightarrow> store \<Rightarrow> report_body \<Rightarrow> reply \<times> store" where
  "reportPOST cal faults clk db body =
     (if b_venue_id body = [] \<or> b_status body = 0 \<or> b_device_id body = []
      then (ReplyError 400 MissingFields, db)
      else if b_status body \<notin> {1, 2, 3, 4}
      then (ReplyError 400 InvalidStatus, db)
      else
        (case faults SelectLastReport of
           Some msg \<Rightarrow> (ReplyError 500 (StoreMessage msg), db)
         | None \<Rightarrow>
        (case cooldownWait (at_guard clk)
                (lastReportAt (tbl_reports db) (b_venue_id body) (b_device_id body)) of
           Some wait \<Rightarrow> (ReplyError 429 (SlowDown wait), db)
         | None \<Rightarrow>
        (case faults CountToday of
           Some msg \<Rightarrow> (ReplyError 500 (StoreMessage msg), db)
         | None \<Rightarrow>
        (if countToday (tbl_reports db) (b_device_id body) (startOfDay cal (at_daycap clk)) \<ge> 20
         then (ReplyError 429 DailyLimit, db)
         else
        (case faults InsertReport of
           Some msg \<Rightarrow> (ReplyError 500 (StoreMessage msg), db)
         | None \<Rightarrow>
             updateBaseline cal faults clk
               (db\<lparr>tbl_reports := tbl_reports db @
                    [\<lparr>r_venue_id = b_venue_id body, r_status = b_status body,
                      r_line_outside = b_line_outside body, r_device_id = b_device_id body,
                      r_created_at = at_insert clk\<rparr>]\<rparr>)
               (b_venue_id body) (b_status body)))))))"

subsection \<open>Sample values for concrete runs\<close>

text \<open>
  An empty store, a store that never fails, a request whose four clock readings agree,
  and a calendar for a runtime on UTC (the epoch was a Thursday, day 4).
\<close>

definition emptyStore :: store where
  "emptyStore =
     \<lparr>tbl_reports = [], tbl_venue_baselines = Map.empty, tbl_alert_subscriptions = [],
      tbl_venues = []\<rparr>"

definition noFaults :: faults where
  "noFaults = (\<lambda>c. None)"

definition clockAt :: "instant \<Rightarrow> report_clock" where
  "clockAt t = \<lparr>at_guard = t, at_daycap = t, at_insert = t, at_bucket = t\<rparr>"

definition utcCalendar :: calendar where
  "utcCalendar =
     \<lparr>startOfDay = (\<lambda>t. t - t mod 86400000),
      getDowHourDetroit = (\<lambda>t. ((t div 86400000 + 4) mod 7, (t div 3600000) mod 24))\<rparr>"

subsection \<open>The invariant of the baseline buckets\<close>

text \<open>
  What the data model asks of a bucket, and the sample count of a key (0 while the
  bucket is unseen).
\<close>

definition baselineOk :: "baseline \<Rightarrow> bool" where
  "baselineOk b = (1 \<le> mean_score b \<and> mean_score b \<le> 4 \<and> 0 \<le> sample_n b)"

definition baselinesOk :: "(string \<times> int \<times> int \<rightharpoonup> baseline) \<Rightarrow> bool" where
  "baselinesOk m = (\<forall>k b. m k = Some b \<longrightarrow> baselineOk b)"

definition samples :: "(string \<times> int \<times> int \<rightharpoonup> baseline) \<Rightarrow> string \<times> int \<times> int \<Rightarrow> int" where
  "samples m k = (case m k of None \<Rightarrow> 0 | Some b \<Rightarrow> sample_n b)"

section \<open>The alert runner\<close>

text \<open>
  \<^verbatim>\<open>POST /api/alerts/run\<close>. It reads the clock for the start of the report window
  (\<open>at_since\<close>) and once before its loop (\<open>at_loop\<close>); in the loop the scorer reads it
  for each subscription (\<open>at_score\<close>, by the id of the row) and so does the update of
  \<^verbatim>\<open>last_triggered_at\<close> (\<open>at_stamp\<close>). The notification is the line the loop logs
  with the venue name, the label and the device, kept here as a triple.
\<close>

record alert_clock =
  at_since :: instant
  at_loop :: instant
  at_score :: "string \<Rightarrow> instant"
  at_stamp :: "string \<Rightarrow> instant"

type_synonym alert = "string \<times> CrowdLabel \<times> string"

record run_state =
  run_subscriptions :: "subscription list"
  run_alerts :: "alert list"
  run_triggered :: nat

text \<open>The grouping loop: \<^verbatim>\<open>reportsByVenue\<close>, a \<^verbatim>\<open>Map\<close> from venue id to reports.\<close>

fun groupReports :: "report_row list \<Rightarrow> (string \<rightharpoonup> report list) \<Rightarrow> (string \<rightharpoonup> report list)" where
  "groupReports [] reportsByVenue = reportsByVenue"
| "groupReports (r # rs) reportsByVenue =
     (let arr = (case reportsByVenue (r_venue_id r) of None \<Rightarrow> [] | Some a \<Rightarrow> a)
      in groupReports rs
           (reportsByVenue(r_venue_id r \<mapsto> arr @ [\<lparr>status = r_status r, created_at = r_created_at r\<rparr>])))"

text \<open>The cooldown test of the loop, on the reading \<open>now\<close> taken before the loop.\<close>

definition inCooldown :: "instant \<Rightarrow> subscription \<Rightarrow> bool" where
  "inCooldown now sub =
     (case sub_last_triggered_at sub of
        None \<Rightarrow> False
      | Some lastTriggered \<Rightarrow>
          (let minutesSinceTriggered = real_of_int (now - lastTriggered) / 60000
           in minutesSinceTriggered < 60))"

definition shouldTrigger :: "int \<Rightarrow> int \<Rightarrow> bool" where
  "shouldTrigger threshold labelNum =
     (if threshold = 2 then labelNum \<le> 2
      else if threshold = 1 then labelNum = 1
      else False)"

text \<open>
  The update \<^verbatim>\<open>.update({ last_triggered_at }).eq("id", sub.id)\<close>; the loop does not
  look at its result.
\<close>

definition setLastTriggered :: "faults \<Rightarrow> string \<Rightarrow> instant \<Rightarrow> subscription list \<Rightarrow> subscription list" where
  "setLastTriggered faults i t tbl =
     (case faults (UpdateTriggered i) of
        Some msg \<Rightarrow> tbl
      | None \<Rightarrow> map (\<lambda>row. if sub_id row = i then row\<lparr>sub_last_triggered_at := Some t\<rparr> else row) tbl)"

text \<open>One turn of the loop; a \<^verbatim>\<open>continue\<close> returns the state as it is.\<close>

definition processSubscription ::
  "faults \<Rightarrow> alert_clock \<Rightarrow> (string \<rightharpoonup> string) \<Rightarrow> (string \<rightharpoonup> report list)
     \<Rightarrow> run_state \<Rightarrow> subscription \<Rightarrow> run_state" where
  "processSubscription faults clk venueMap reportsByVenue st sub =
     (if inCooldown (at_loop clk) sub then st
      else
        (let venueReports = (case reportsByVenue (sub_venue_id sub) of None \<Rightarrow> [] | Some a \<Rightarrow> a);
             score = computeDecayedScore (at_score clk (sub_id sub)) venueReports;
             label = labelFromScore score;
             labelNum = labelToNumber label
         in if \<not> shouldTrigger (sub_threshold sub) labelNum then st
            else
              (let venueName =
                     (case venueMap (sub_venue_id sub) of None \<Rightarrow> ''Unknown venue'' | Some nm \<Rightarrow> nm)
               in \<lparr>run_subscriptions =
                      setLastTriggered faults (sub_id sub) (at_stamp clk (sub_id sub))
                        (run_subscriptions st),
                    run_alerts = run_alerts st @ [(venueName, label, sub_device_id sub)],
                    run_triggered = run_triggered st + 1\<rparr>)))"

fun alertLoop ::
  "faults \<Rightarrow> alert_clock \<Rightarrow> (string \<rightharpoonup> string) \<Rightarrow> (string \<rightharpoonup> report list)
     \<Rightarrow> run_state \<Rightarrow> subscription list \<Rightarrow> run_state" where
  "alertLoop faults clk venueMap reportsByVenue st [] = st"
| "alertLoop faults clk venueMap reportsByVenue st (sub # subs) =
     alertLoop faults clk venueMap reportsByVenue
       (processSubscription faults clk venueMap reportsByVenue st sub) subs"

text \<open>
  The reports query: the rows of the venues at hand created at or after \<open>since\<close>, newest
  first (rows of one instant in the order stored), at most 2000 of them.
\<close>

definition recentReports :: "report_row list \<Rightarrow> string list \<Rightarrow> instant \<Rightarrow> report_row list" where
  "recentReports rows venueIds since =
     take 2000
       (sort_key (\<lambda>r. - r_created_at r)
          (filter (\<lambda>r. r_venue_id r \<in> set venueIds \<and> r_created_at r \<ge> since) rows))"

definition alertsRunPOST :: "faults \<Rightarrow> alert_clock \<Rightarrow> store \<Rightarrow> reply \<times> alert list \<times> store" where
  "alertsRunPOST faults clk db =
     (case faults SelectActive of
        Some errorMsg \<Rightarrow> (ReplyError 500 (storeError errorMsg), [], db)
      | None \<Rightarrow>
     (let subscriptions = filter sub_active (tbl_alert_subscriptions db)
      in if length subscriptions = 0 then (ReplyRun 0 0, [], db)
         else
     (let venueIds = remdups (map sub_venue_id subscriptions)
      in case faults SelectVenues of
           Some msg \<Rightarrow> (ReplyError 500 (StoreMessage msg), [], db)
         | None \<Rightarrow>
     (let venueMap =
            fold (\<lambda>v m. m(v_id v \<mapsto> v_name v))
              (filter (\<lambda>v. v_id v \<in> set venueIds) (tbl_venues db)) Map.empty;
          since = at_since clk - 3 * 60 * 60 * 1000
      in case faults SelectReports of
           Some msg \<Rightarrow> (ReplyError 500 (StoreMessage msg), [], db)
         | None \<Rightarrow>
     (let reportsByVenue = groupReports (recentReports (tbl_reports db) venueIds since) Map.empty;
          st = alertLoop faults clk venueMap reportsByVenue
                 \<lparr>run_subscriptions = tbl_alert_subscriptions db, run_alerts = [], run_triggered = 0\<rparr>
                 subscriptions
      in (ReplyRun (length subscriptions) (run_triggered st), run_alerts st,
          db\<lparr>tbl_alert_subscriptions := run_subscriptions st\<rparr>))))))"

text \<open>A run whose clock readings all agree, for concrete runs.\<close>

definition runClockAt :: "instant \<Rightarrow> alert_clock" where
  "runClockAt t = \<lparr>at_since = t, at_loop = t, at_score = (\<lambda>i. t), at_stamp = (\<lambda>i. t)\<rparr>"

section \<open>The subscribe route\<close>

text \<open>
  \<^verbatim>\<open>POST /api/alerts/subscribe\<close>: select, then update or insert. The insert leaves
  \<^verbatim>\<open>id\<close>, \<^verbatim>\<open>created_at\<close> and \<^verbatim>\<open>last_triggered_at\<close> to the column defaults
  (\<^verbatim>\<open>gen_random_uuid()\<close>, \<^verbatim>\<open>now()\<close>, null); the first two are the parameters
  \<open>newId\<close> and \<open>createdAt\<close>. The schema file declares the primary key \<^verbatim>\<open>id\<close> and
  \<^verbatim>\<open>CONSTRAINT unique_subscription UNIQUE(venue_id, device_id, threshold)\<close>, while the
  route describes its strategy as one that works without the unique constraint:
  \<open>uniqueSubscription\<close> says whether the table carries it.
\<close>

record subscribe_body =
  sb_venue_id :: string
  sb_device_id :: string
  sb_threshold :: int

text \<open>
  The select with \<^verbatim>\<open>.eq("active", true)\<close> and \<^verbatim>\<open>.maybeSingle()\<close>: no row is
  \<^verbatim>\<open>null\<close>, one row is its id, more rows are an error of the client.
\<close>

definition selectActiveSubscription ::
  "subscription list \<Rightarrow> string \<Rightarrow> string \<Rightarrow> int \<Rightarrow> error_text + string option" where
  "selectActiveSubscription tbl venue_id device thresh =
     (case filter (\<lambda>row. sub_venue_id row = venue_id \<and> sub_device_id row = device
                      \<and> sub_threshold row = thresh \<and> sub_active row) tbl of
        [] \<Rightarrow> Inr None
      | [row] \<Rightarrow> Inr (Some (sub_id row))
      | _ \<Rightarrow> Inl MultipleRows)"

definition insertSubscription ::
  "bool \<Rightarrow> subscription list \<Rightarrow> subscription \<Rightarrow> error_text + subscription list" where
  "insertSubscription uniqueSubscription tbl row =
     (if (\<exists>old\<in>set tbl. sub_id old = sub_id row)
         \<or> (uniqueSubscription
            \<and> (\<exists>old\<in>set tbl. sub_venue_id old = sub_venue_id row
                  \<and> sub_device_id old = sub_device_id row \<and> sub_threshold old = sub_threshold row))
      then Inl DuplicateKey
      else Inr (tbl @ [row]))"

definition subscribePOST ::
  "bool \<Rightarrow> faults \<Rightarrow> string \<Rightarrow> instant \<Rightarrow> store \<Rightarrow> subscribe_body \<Rightarrow> reply \<times> store" where
  "subscribePOST uniqueSubscription faults newId createdAt db body =
     (if sb_venue_id body = [] \<or> sb_device_id body = [] \<or> sb_threshold body = 0
      then (ReplyError 400 MissingFields, db)
      else if sb_threshold body \<notin> {1, 2}
      then (ReplyError 400 InvalidThreshold, db)
      else
        (case faults SelectSubscription of
           Some errorMsg \<Rightarrow> (ReplyError 500 (storeError errorMsg), db)
         | None \<Rightarrow>
        (case selectActiveSubscription (tbl_alert_subscriptions db)
                (sb_venue_id body) (sb_device_id body) (sb_threshold body) of
           Inl e \<Rightarrow> (ReplyError 500 e, db)
         | Inr (Some existing) \<Rightarrow>
             (case faults UpdateSubscription of
                Some msg \<Rightarrow> (ReplyError 500 (StoreMessage msg), db)
              | None \<Rightarrow>
                  (ReplyOk,
                   db\<lparr>tbl_alert_subscriptions :=
                        map (\<lambda>row. if sub_id row = existing then row\<lparr>sub_active := True\<rparr> else row)
                          (tbl_alert_subscriptions db)\<rparr>))
         | Inr None \<Rightarrow>
             (case faults InsertSubscription of
                Some msg \<Rightarrow> (ReplyError 500 (StoreMessage msg), db)
              | None \<Rightarrow>
                  (case insertSubscription uniqueSubscription (tbl_alert_subscriptions db)
                          \<lparr>sub_id = newId, sub_venue_id = sb_venue_id body,
                            sub_device_id = sb_device_id body, sub_threshold = sb_threshold body,
                            sub_active = True, sub_created_at = createdAt,
                            sub_last_triggered_at = None\<rparr> of
                     Inl e \<Rightarrow> (ReplyError 500 e, db)
                   | Inr tbl \<Rightarrow> (ReplyOk, db\<lparr>tbl_alert_subscriptions := tbl\<rparr>))))))"

text \<open>The rows of a (venue, device, threshold) triple.\<close>

definition rowsOfTriple :: "subscription list \<Rightarrow> string \<Rightarrow> string \<Rightarrow> int \<Rightarrow> subscription list" where
  "rowsOfTriple tbl venue_id device thresh =
     filter (\<lambda>row. sub_venue_id row = venue_id \<and> sub_device_id row = device
                  \<and> sub_threshold row = thresh) tbl"

section \<open>Theorems\<close>

lemma jsRound_le_iff: "jsRound x \<le> k \<longleftrightarrow> x < of_int k + 1 / 2"
proof -
  have "jsRound x \<le> k \<longleftrightarrow> \<lfloor>x + 1 / 2\<rfloor> < k + 1"
    by (simp add: jsRound_def)
  also have "\<dots> \<longleftrightarrow> x + 1 / 2 < of_int (k + 1)"
    by (rule floor_less_iff)
  also have "\<dots> \<longleftrightarrow> x < of_int k + 1 / 2"
    by auto
  finally show ?thesis .
qed

text \<open>
  C8. The predicted label is the label of the current signal when the bucket has no
  baseline, and of \<open>0.55 * baseline + 0.45 * current\<close> otherwise; for a baseline mean of
  3.0 and a current signal of 1.0 the blend is 2.1 and the label is Medium.
\<close>

theorem predictLabel_blend:
  "blended c None = c
   \<and> blended c (Some b) = 0.55 * b + 0.45 * c
   \<and> predictLabel c None = labelFromScore c
   \<and> predictLabel c (Some b) = labelFromScore (0.55 * b + 0.45 * c)
   \<and> blended 1.0 (Some 3.0) = 2.1
   \<and> predictLabel 1.0 (Some 3.0) = Medium"
  by (simp add: blended_def predictLabel_def labelFromScore_def)

lemma max0_jsRound_le_iff:
  "0 \<le> k \<Longrightarrow> max 0 (jsRound x) \<le> k \<longleftrightarrow> x < of_int k + 1 / 2"
  using jsRound_le_iff [of x k] by auto

text \<open>
  C7 as stated compares the real-valued age with 10 and 25. The code first rounds
  the age to whole minutes: a latest report 10.4 minutes old (624000 ms) with three
  reports gives High, where the stated rule gives Medium.
\<close>

theorem confidenceFrom_unrounded_counterexample:
  "confidenceFrom 624000 (Some 0) 3 = ConfHigh
   \<and> confidenceRule (Some (ageMinutes 624000 0)) 3 = ConfMedium"
  by (simp add: confidenceFrom_def confidenceRule_def ageMinutes_def jsRound_def)

text \<open>
  C7, amended. With no report the confidence is Low; otherwise the stated rule is
  applied, in its order, to the age rounded to the nearest whole minute (a half going
  up) and clamped at 0. On the unrounded age this is: High when the age is below 10.5
  minutes and the count is at least 3, else Medium when the age is below 25.5 minutes
  and the count is at least 2, else Low.
\<close>

theorem confidenceFrom_rounded_rule:
  "confidenceFrom now None c = ConfLow
   \<and> confidenceFrom now (Some t) c =
       confidenceRule (Some (real_of_int (max 0 (jsRound (ageMinutes now t))))) c
   \<and> confidenceFrom now (Some t) c =
       (if ageMinutes now t < 10.5 \<and> c \<ge> 3 then ConfHigh
        else if ageMinutes now t < 25.5 \<and> c \<ge> 2 then ConfMedium
        else ConfLow)"
proof -
  let ?a = "ageMinutes now t"
  have h10: "max 0 (jsRound ?a) \<le> 10 \<longleftrightarrow> ?a < 10.5"
    using max0_jsRound_le_iff [of 10 ?a] by simp
  have h25: "max 0 (jsRound ?a) \<le> 25 \<longleftrightarrow> ?a < 25.5"
    using max0_jsRound_le_iff [of 25 ?a] by simp
  have unf: "confidenceFrom now (Some t) c =
       (if max 0 (jsRound ?a) \<le> 10 \<and> c \<ge> 3 then ConfHigh
        else if max 0 (jsRound ?a) \<le> 25 \<and> c \<ge> 2 then ConfMedium
        else ConfLow)"
    by (simp add: confidenceFrom_def ageMinutes_def Let_def)
  have spec: "confidenceRule (Some (real_of_int (max 0 (jsRound ?a)))) c =
       (if max 0 (jsRound ?a) \<le> 10 \<and> c \<ge> 3 then ConfHigh
        else if max 0 (jsRound ?a) \<le> 25 \<and> c \<ge> 2 then ConfMedium
        else ConfLow)"
    unfolding confidenceRule_def option.case
    by (simp only: of_int_le_iff [symmetric, where ?'a = real] of_int_numeral)
  show ?thesis
    using unf spec h10 h25 by (simp add: confidenceFrom_def)
qed

subsection \<open>The scorer\<close>

lemma quickPass_sums:
  "quickPass now rs (w0, s0) =
     (w0 + (\<Sum>r\<leftarrow>filter (\<lambda>r. ageMinutes now (created_at r) \<le> 30) rs.
              exp (- ageMinutes now (created_at r) / 30)),
      s0 + (\<Sum>r\<leftarrow>filter (\<lambda>r. ageMinutes now (created_at r) \<le> 30) rs.
              exp (- ageMinutes now (created_at r) / 30) * real_of_int (status r)))"
  by (induction rs arbitrary: w0 s0) (simp_all add: Let_def add.assoc)

lemma dampedPass_sums:
  "dampedPass now c rs (w0, s0) =
     (w0 + (\<Sum>r\<leftarrow>rs. dampedWeight now c r),
      s0 + (\<Sum>r\<leftarrow>rs. dampedWeight now c r * real_of_int (status r)))"
  by (induction rs arbitrary: w0 s0) (simp_all add: Let_def dampedWeight_def add.assoc)

lemma computeDecayedScore_sums:
  "computeDecayedScore now rs =
     (if (\<Sum>r\<leftarrow>rs. dampedWeight now (consensusNum now rs) r) > 0
      then (\<Sum>r\<leftarrow>rs. dampedWeight now (consensusNum now rs) r * real_of_int (status r))
             / (\<Sum>r\<leftarrow>rs. dampedWeight now (consensusNum now rs) r)
      else 2)"
  by (simp add: computeDecayedScore_def dampedPass_sums)

lemma dampedWeight_pos: "0 < dampedWeight now c r"
  by (simp add: dampedWeight_def)

lemma dampedWeight_sum_pos: "rs \<noteq> [] \<Longrightarrow> 0 < (\<Sum>r\<leftarrow>rs. dampedWeight now c r)"
proof (induction rs)
  case Nil
  then show ?case by simp
next
  case (Cons r rs)
  have "0 \<le> (\<Sum>r\<leftarrow>rs. dampedWeight now c r)"
    by (rule sum_list_nonneg) (auto simp: dampedWeight_pos less_imp_le)
  then show ?case
    using dampedWeight_pos [of now c r] by simp
qed

lemma dampedWeight_sum_bounds:
  assumes "\<forall>r\<in>set rs. 1 \<le> status r \<and> status r \<le> 4"
  shows "(\<Sum>r\<leftarrow>rs. dampedWeight now c r) \<le> (\<Sum>r\<leftarrow>rs. dampedWeight now c r * real_of_int (status r))
       \<and> (\<Sum>r\<leftarrow>rs. dampedWeight now c r * real_of_int (status r)) \<le> 4 * (\<Sum>r\<leftarrow>rs. dampedWeight now c r)"
  using assms
proof (induction rs)
  case Nil
  then show ?case by simp
next
  case (Cons r rs)
  have s: "1 \<le> real_of_int (status r)" "real_of_int (status r) \<le> 4"
    using Cons.prems by auto
  have lo: "dampedWeight now c r \<le> dampedWeight now c r * real_of_int (status r)"
    using s(1) dampedWeight_pos [of now c r] by simp
  have hi: "dampedWeight now c r * real_of_int (status r) \<le> 4 * dampedWeight now c r"
    using s(2) dampedWeight_pos [of now c r] by simp
  from Cons have ih: "(\<Sum>r\<leftarrow>rs. dampedWeight now c r) \<le> (\<Sum>r\<leftarrow>rs. dampedWeight now c r * real_of_int (status r))"
    "(\<Sum>r\<leftarrow>rs. dampedWeight now c r * real_of_int (status r)) \<le> 4 * (\<Sum>r\<leftarrow>rs. dampedWeight now c r)"
    by auto
  show ?case using lo hi ih by simp
qed

text \<open>
  C3. For reports whose statuses all lie in {1,2,3,4} the score lies in [1,4]; for the
  empty list, and whenever the total weight of the final pass is zero, it is exactly 2,
  which the label classifier maps to Medium.
\<close>

theorem computeDecayedScore_range:
  "((\<forall>r\<in>set rs. status r \<in> {1, 2, 3, 4}) \<longrightarrow>
       1 \<le> computeDecayedScore now rs \<and> computeDecayedScore now rs \<le> 4)
   \<and> computeDecayedScore now [] = 2
   \<and> ((\<Sum>r\<leftarrow>rs. dampedWeight now (consensusNum now rs) r) = 0 \<longrightarrow> computeDecayedScore now rs = 2)
   \<and> labelFromScore 2 = Medium"
proof -
  let ?W = "\<Sum>r\<leftarrow>rs. dampedWeight now (consensusNum now rs) r"
  let ?S = "\<Sum>r\<leftarrow>rs. dampedWeight now (consensusNum now rs) r * real_of_int (status r)"
  have range: "1 \<le> computeDecayedScore now rs \<and> computeDecayedScore now rs \<le> 4"
    if st: "\<forall>r\<in>set rs. status r \<in> {1, 2, 3, 4}"
  proof (cases "0 < ?W")
    case True
    have "\<forall>r\<in>set rs. 1 \<le> status r \<and> status r \<le> 4"
      using st by auto
    then have b: "?W \<le> ?S" "?S \<le> 4 * ?W"
      using dampedWeight_sum_bounds [of rs now "consensusNum now rs"] by auto
    have "1 \<le> ?S / ?W" "?S / ?W \<le> 4"
      using True b by (simp_all add: field_simps)
    then show ?thesis
      using True by (simp add: computeDecayedScore_sums)
  next
    case False
    then show ?thesis by (simp add: computeDecayedScore_sums)
  qed
  have empty: "computeDecayedScore now [] = 2"
    by (simp add: computeDecayedScore_def)
  have zero: "?W = 0 \<longrightarrow> computeDecayedScore now rs = 2"
    by (simp add: computeDecayedScore_sums)
  have lab: "labelFromScore 2 = Medium"
    by (simp add: labelFromScore_def)
  show ?thesis using range empty zero lab by blast
qed

theorem computeDecayedScore_range_witness:
  "computeDecayedScore 600000 [] = 2
   \<and> labelFromScore (computeDecayedScore 600000 []) = Medium
   \<and> 1 \<le> computeDecayedScore 600000 [\<lparr>status = 3, created_at = 0\<rparr>, \<lparr>status = 1, created_at = 300000\<rparr>]
   \<and> computeDecayedScore 600000 [\<lparr>status = 3, created_at = 0\<rparr>, \<lparr>status = 1, created_at = 300000\<rparr>] \<le> 4"
  using computeDecayedScore_range [of "[]" 600000]
    computeDecayedScore_range [of "[\<lparr>status = 3, created_at = 0\<rparr>, \<lparr>status = 1, created_at = 300000\<rparr>]" 600000]
  by simp

text \<open>
  C9. The trend is unknown whenever fewer than 2 reports are aged at most 30 minutes or
  fewer than 2 are aged over 30 and at most 90 minutes; in particular when every report
  is older than 90 minutes.
\<close>

theorem computeTrend_unknown:
  "(length (filter (\<lambda>r. ageMinutes now (created_at r) \<le> 30) rs) < 2
      \<or> length (filter (\<lambda>r. 30 < ageMinutes now (created_at r)
                            \<and> ageMinutes now (created_at r) \<le> 90) rs) < 2
      \<longrightarrow> computeTrend now nowCurrent nowPrevious rs = TrendUnknown)
   \<and> ((\<forall>r\<in>set rs. ageMinutes now (created_at r) > 90)
      \<longrightarrow> computeTrend now nowCurrent nowPrevious rs = TrendUnknown)"
proof -
  have old: "filter (\<lambda>r. ageMinutes now (created_at r) \<le> 30) rs = []"
    if "\<forall>r\<in>set rs. ageMinutes now (created_at r) > 90"
    using that by (auto simp: filter_empty_conv)
  show ?thesis
    using old by (auto simp: computeTrend_def Let_def)
qed

theorem computeTrend_unknown_witness:
  "computeTrend 6000000 6000001 6000002
     [\<lparr>status = 4, created_at = 0\<rparr>, \<lparr>status = 1, created_at = 60000\<rparr>,
      \<lparr>status = 3, created_at = 120000\<rparr>] = TrendUnknown
   \<and> computeTrend 6000000 6000001 6000002
     [\<lparr>status = 4, created_at = 5990000\<rparr>, \<lparr>status = 1, created_at = 3000000\<rparr>,
      \<lparr>status = 3, created_at = 3100000\<rparr>] = TrendUnknown"
  using computeTrend_unknown [of 6000000
      "[\<lparr>status = 4, created_at = 0\<rparr>, \<lparr>status = 1, created_at = 60000\<rparr>,
        \<lparr>status = 3, created_at = 120000\<rparr>]" 6000001 6000002]
    computeTrend_unknown [of 6000000
      "[\<lparr>status = 4, created_at = 5990000\<rparr>, \<lparr>status = 1, created_at = 3000000\<rparr>,
        \<lparr>status = 3, created_at = 3100000\<rparr>]" 6000001 6000002]
  by (simp add: ageMinutes_def)

lemma sum_list_nine_and_one:
  fixes f :: "'a \<Rightarrow> real"
  assumes "mset rs = replicate_mset 9 a + {#b#}"
  shows "(\<Sum>r\<leftarrow>rs. f r) = 9 * f a + f b"
proof -
  have "(\<Sum>r\<leftarrow>rs. f r) = sum_mset (image_mset f (mset rs))"
    by (metis mset_map sum_mset_sum_list)
  then show ?thesis
    by (simp add: assms)
qed

lemma set_nine_and_one:
  assumes "mset rs = replicate_mset 9 a + {#b#}"
  shows "set rs = {a, b}"
proof -
  have "set rs = set_mset (mset rs)" by simp
  then show ?thesis unfolding assms by auto
qed

lemma nine_and_one_consensus:
  assumes m: "mset rs = replicate_mset 9 \<lparr>status = 1, created_at = t\<rparr> + {#\<lparr>status = 4, created_at = t\<rparr>#}"
  shows "consensusNum now rs = (if ageMinutes now t \<le> 30 then 1 else 2)"
proof -
  have setrs: "set rs = {\<lparr>status = 1, created_at = t\<rparr>, \<lparr>status = 4, created_at = t\<rparr>}"
    using set_nine_and_one [OF m] .
  have ne: "rs \<noteq> []" using setrs by auto
  show ?thesis
  proof (cases "ageMinutes now t \<le> 30")
    case True
    have f: "filter (\<lambda>r. ageMinutes now (created_at r) \<le> 30) rs = rs"
      using True setrs by (auto simp: filter_id_conv)
    have w: "0 < exp (- ageMinutes now t / 30)" by simp
    have "quickPass now rs (0, 0) =
        (10 * exp (- ageMinutes now t / 30), 13 * exp (- ageMinutes now t / 30))"
      by (simp add: quickPass_sums f sum_list_nine_and_one [OF m])
    moreover have "jsRound (13 * exp (- ageMinutes now t / 30) / (10 * exp (- ageMinutes now t / 30))) = 1"
      by (simp add: jsRound_def)
    ultimately show ?thesis
      using True ne by (simp add: consensusNum_def)
  next
    case False
    have f: "filter (\<lambda>r. ageMinutes now (created_at r) \<le> 30) rs = []"
      using False setrs by (auto simp: filter_empty_conv)
    show ?thesis
      using False ne by (simp add: consensusNum_def quickPass_sums f)
  qed
qed

text \<open>
  C2. The final pass weighs each report by \<open>exp (- ageMinutes / 30)\<close> times 0.25 when its
  status is 2 or more levels from the quick consensus and times 1.0 otherwise; for 9
  reports of status 1 and 1 report of status 4 at one timestamp the score is 40/37,
  strictly closer to 1 than the undamped weighted mean 13/10.
\<close>

theorem computeDecayedScore_damping:
  "computeDecayedScore now rs =
     (if (\<Sum>r\<leftarrow>rs. dampedWeight now (consensusNum now rs) r) > 0
      then (\<Sum>r\<leftarrow>rs. dampedWeight now (consensusNum now rs) r * real_of_int (status r))
             / (\<Sum>r\<leftarrow>rs. dampedWeight now (consensusNum now rs) r)
      else 2)
   \<and> dampedWeight now c r =
       exp (- ageMinutes now (created_at r) / 30) * (if \<bar>status r - c\<bar> \<ge> 2 then 0.25 else 1.0)
   \<and> (mset rs = replicate_mset 9 \<lparr>status = 1, created_at = t\<rparr> + {#\<lparr>status = 4, created_at = t\<rparr>#}
        \<longrightarrow> computeDecayedScore now rs = 40 / 37
          \<and> undampedMean now rs = 13 / 10
          \<and> \<bar>computeDecayedScore now rs - 1\<bar> < \<bar>undampedMean now rs - 1\<bar>)"
proof -
  have nine: "computeDecayedScore now rs = 40 / 37 \<and> undampedMean now rs = 13 / 10"
    if m: "mset rs = replicate_mset 9 \<lparr>status = 1, created_at = t\<rparr> + {#\<lparr>status = 4, created_at = t\<rparr>#}"
  proof -
    let ?e = "exp (- ageMinutes now t / 30)"
    have e: "0 < ?e" by simp
    have c: "consensusNum now rs = 1 \<or> consensusNum now rs = 2"
      using nine_and_one_consensus [OF m, of now] by auto
    have W: "(\<Sum>r\<leftarrow>rs. dampedWeight now (consensusNum now rs) r) = 37 / 4 * ?e"
      using c by (auto simp: sum_list_nine_and_one [OF m] dampedWeight_def)
    have S: "(\<Sum>r\<leftarrow>rs. dampedWeight now (consensusNum now rs) r * real_of_int (status r)) = 10 * ?e"
      using c by (auto simp: sum_list_nine_and_one [OF m] dampedWeight_def)
    have score: "computeDecayedScore now rs = 40 / 37"
      using e by (simp add: computeDecayedScore_sums W S)
    have "undampedMean now rs = (13 * ?e) / (10 * ?e)"
      by (simp add: undampedMean_def sum_list_nine_and_one [OF m])
    then have "undampedMean now rs = 13 / 10"
      using e by simp
    with score show ?thesis by simp
  qed
  show ?thesis
    using nine by (auto simp: computeDecayedScore_sums dampedWeight_def)
qed

theorem computeDecayedScore_damping_witness:
  "computeDecayedScore 300000
      (replicate 9 \<lparr>status = 1, created_at = 0\<rparr> @ [\<lparr>status = 4, created_at = 0\<rparr>]) = 40 / 37
   \<and> undampedMean 300000
      (replicate 9 \<lparr>status = 1, created_at = 0\<rparr> @ [\<lparr>status = 4, created_at = 0\<rparr>]) = 13 / 10
   \<and> \<bar>computeDecayedScore 300000
      (replicate 9 \<lparr>status = 1, created_at = 0\<rparr> @ [\<lparr>status = 4, created_at = 0\<rparr>]) - 1\<bar>
     < \<bar>undampedMean 300000
      (replicate 9 \<lparr>status = 1, created_at = 0\<rparr> @ [\<lparr>status = 4, created_at = 0\<rparr>]) - 1\<bar>"
proof -
  let ?a = "\<lparr>status = 1, created_at = 0\<rparr>"
  let ?b = "\<lparr>status = 4, created_at = 0\<rparr>"
  have m: "mset (replicate 9 ?a @ [?b]) = replicate_mset 9 ?a + {#?b#}"
    by simp
  show ?thesis
    using computeDecayedScore_damping [of 300000 "replicate 9 ?a @ [?b]" 0 ?a 0,
        THEN conjunct2, THEN conjunct2, rule_format, OF m] .
qed

subsection \<open>The report route\<close>

lemma fold_max_ge: "(a::int) \<le> fold max xs a"
  by (induction xs arbitrary: a) (auto intro: order_trans [OF max.cobounded2])

lemma fold_max_upper: "x \<in> set xs \<Longrightarrow> (x::int) \<le> fold max xs a"
proof (induction xs arbitrary: a)
  case Nil
  then show ?case by simp
next
  case (Cons y ys)
  show ?case
  proof (cases "x = y")
    case True
    have "y \<le> max y a" by simp
    also have "\<dots> \<le> fold max ys (max y a)" by (rule fold_max_ge)
    finally show ?thesis using True by simp
  next
    case False
    then show ?thesis using Cons by auto
  qed
qed

lemma fold_max_mem: "fold max xs (a::int) \<in> insert a (set xs)"
  by (induction xs arbitrary: a) (auto simp: max_def)

lemma lastReportAt_newest:
  "lastReportAt rows v d = Some t \<longleftrightarrow>
     (\<exists>r\<in>set rows. r_venue_id r = v \<and> r_device_id r = d \<and> r_created_at r = t)
     \<and> (\<forall>r\<in>set rows. r_venue_id r = v \<and> r_device_id r = d \<longrightarrow> r_created_at r \<le> t)"
proof (cases "filter (\<lambda>r. r_venue_id r = v \<and> r_device_id r = d) rows")
  case Nil
  then have "\<forall>r\<in>set rows. \<not> (r_venue_id r = v \<and> r_device_id r = d)"
    by (simp add: filter_empty_conv)
  then show ?thesis
    using Nil by (auto simp: lastReportAt_def)
next
  case (Cons x xs)
  let ?m = "fold max (map r_created_at xs) (r_created_at x)"
  have sel: "set (x # xs) = {r \<in> set rows. r_venue_id r = v \<and> r_device_id r = d}"
    using Cons [symmetric] by simp
  have val: "lastReportAt rows v d = Some ?m"
    using Cons by (simp add: lastReportAt_def)
  have mem: "?m \<in> r_created_at ` set (x # xs)"
    using fold_max_mem [of "map r_created_at xs" "r_created_at x"] by auto
  have ub: "\<forall>r\<in>set (x # xs). r_created_at r \<le> ?m"
    using fold_max_ge [of "r_created_at x" "map r_created_at xs"]
      fold_max_upper [of _ "map r_created_at xs" "r_created_at x"] by auto
  show ?thesis
  proof
    assume "lastReportAt rows v d = Some t"
    then have "t = ?m" using val by simp
    then show "(\<exists>r\<in>set rows. r_venue_id r = v \<and> r_device_id r = d \<and> r_created_at r = t)
     \<and> (\<forall>r\<in>set rows. r_venue_id r = v \<and> r_device_id r = d \<longrightarrow> r_created_at r \<le> t)"
      using mem ub unfolding sel by auto
  next
    assume a: "(\<exists>r\<in>set rows. r_venue_id r = v \<and> r_device_id r = d \<and> r_created_at r = t)
     \<and> (\<forall>r\<in>set rows. r_venue_id r = v \<and> r_device_id r = d \<longrightarrow> r_created_at r \<le> t)"
    then have "t \<le> ?m" using ub unfolding sel by auto
    moreover have "?m \<le> t" using a mem unfolding sel by auto
    ultimately show "lastReportAt rows v d = Some t" using val by simp
  qed
qed

lemma cooldownWait_Some_iff:
  "cooldownWait now lastCreated = Some w \<longleftrightarrow>
     (\<exists>created. lastCreated = Some created \<and> minutesBetween now created < 10
        \<and> w = max 1 \<lceil>10 - minutesBetween now created\<rceil>)"
  by (cases lastCreated) (auto simp: cooldownWait_def Let_def)

lemma updateBaseline_not_SlowDown:
  "fst (updateBaseline cal faults clk db v s) \<noteq> ReplyError 429 e"
  by (auto simp: updateBaseline_def Let_def split: prod.splits option.splits)

lemma reportPOST_SlowDown_iff:
  assumes "b_venue_id body \<noteq> []" "b_device_id body \<noteq> []" "b_status body \<in> {1, 2, 3, 4}"
    and "faults SelectLastReport = None"
  shows "fst (reportPOST cal faults clk db body) = ReplyError 429 (SlowDown w) \<longleftrightarrow>
     cooldownWait (at_guard clk)
       (lastReportAt (tbl_reports db) (b_venue_id body) (b_device_id body)) = Some w"
proof (cases "cooldownWait (at_guard clk)
       (lastReportAt (tbl_reports db) (b_venue_id body) (b_device_id body))")
  case None
  have z: "b_status body \<noteq> 0" using assms(3) by auto
  show ?thesis
    using assms z None updateBaseline_not_SlowDown
    by (auto simp: reportPOST_def split: option.splits)
next
  case (Some w')
  have z: "b_status body \<noteq> 0" using assms(3) by auto
  show ?thesis
    using assms z Some by (auto simp: reportPOST_def)
qed


text \<open>
  C6. For a well-formed report whose cooldown lookup succeeds, the route answers 429
  with a wait \<open>w\<close> exactly when the newest report of the same device for the same venue
  is less than 10 minutes from the clock reading (\<open>minutesBetween\<close>, the age of a
  report that is not from the future), and then \<open>w\<close> is
  \<open>max 1 \<lceil>10 - ageMin\<rceil>\<close> and nothing is stored. Nine minutes after the newest
  report the answer is that rejection with a wait of 1; eleven minutes after, with the
  device under its daily cap and the store answering, the report is accepted and stored.
\<close>

theorem reportPOST_cooldown:
  assumes "b_venue_id body \<noteq> []" "b_device_id body \<noteq> []" "b_status body \<in> {1, 2, 3, 4}"
    and "faults SelectLastReport = None"
  shows
    "(fst (reportPOST cal faults clk db body) = ReplyError 429 (SlowDown w) \<longleftrightarrow>
        (\<exists>created.
           (\<exists>r\<in>set (tbl_reports db). r_venue_id r = b_venue_id body
               \<and> r_device_id r = b_device_id body \<and> r_created_at r = created)
           \<and> (\<forall>r\<in>set (tbl_reports db). r_venue_id r = b_venue_id body
               \<and> r_device_id r = b_device_id body \<longrightarrow> r_created_at r \<le> created)
           \<and> minutesBetween (at_guard clk) created < 10
           \<and> w = max 1 \<lceil>10 - minutesBetween (at_guard clk) created\<rceil>))
     \<and> (fst (reportPOST cal faults clk db body) = ReplyError 429 (SlowDown w) \<longrightarrow>
          snd (reportPOST cal faults clk db body) = db \<and> 1 \<le> w)
     \<and> (lastReportAt (tbl_reports db) (b_venue_id body) (b_device_id body) = Some created
          \<and> at_guard clk = created + 9 * 60000 \<longrightarrow>
          reportPOST cal faults clk db body = (ReplyError 429 (SlowDown 1), db))
     \<and> (lastReportAt (tbl_reports db) (b_venue_id body) (b_device_id body) = Some created
          \<and> at_guard clk = created + 11 * 60000
          \<and> countToday (tbl_reports db) (b_device_id body) (startOfDay cal (at_daycap clk)) < 20
          \<and> faults CountToday = None \<and> faults InsertReport = None
          \<and> faults SelectBaseline = None \<and> faults UpsertBaseline = None \<longrightarrow>
          fst (reportPOST cal faults clk db body) = ReplyOk
          \<and> tbl_reports (snd (reportPOST cal faults clk db body)) =
              tbl_reports db @
                [\<lparr>r_venue_id = b_venue_id body, r_status = b_status body,
                  r_line_outside = b_line_outside body, r_device_id = b_device_id body,
                  r_created_at = at_insert clk\<rparr>])
     \<and> (created \<le> at_guard clk \<longrightarrow>
          minutesBetween (at_guard clk) created = ageMinutes (at_guard clk) created)"
proof -
  let ?last = "lastReportAt (tbl_reports db) (b_venue_id body) (b_device_id body)"
  have z: "b_status body \<noteq> 0" using assms(3) by auto
  have iff: "fst (reportPOST cal faults clk db body) = ReplyError 429 (SlowDown w) \<longleftrightarrow>
      (\<exists>created. ?last = Some created \<and> minutesBetween (at_guard clk) created < 10
         \<and> w = max 1 \<lceil>10 - minutesBetween (at_guard clk) created\<rceil>)"
    using reportPOST_SlowDown_iff [where body = body and faults = faults, OF assms] cooldownWait_Some_iff by simp
  have a: "fst (reportPOST cal faults clk db body) = ReplyError 429 (SlowDown w) \<longleftrightarrow>
        (\<exists>created.
           (\<exists>r\<in>set (tbl_reports db). r_venue_id r = b_venue_id body
               \<and> r_device_id r = b_device_id body \<and> r_created_at r = created)
           \<and> (\<forall>r\<in>set (tbl_reports db). r_venue_id r = b_venue_id body
               \<and> r_device_id r = b_device_id body \<longrightarrow> r_created_at r \<le> created)
           \<and> minutesBetween (at_guard clk) created < 10
           \<and> w = max 1 \<lceil>10 - minutesBetween (at_guard clk) created\<rceil>)"
    unfolding iff lastReportAt_newest by blast
  have b: "snd (reportPOST cal faults clk db body) = db \<and> 1 \<le> w"
    if r: "fst (reportPOST cal faults clk db body) = ReplyError 429 (SlowDown w)"
  proof -
    from r have cw: "cooldownWait (at_guard clk) ?last = Some w"
      using reportPOST_SlowDown_iff [where body = body and faults = faults, OF assms] by simp
    then have "1 \<le> w" by (auto simp: cooldownWait_Some_iff)
    moreover have "snd (reportPOST cal faults clk db body) = db"
      using assms z cw by (simp add: reportPOST_def)
    ultimately show ?thesis by simp
  qed
  have c: "reportPOST cal faults clk db body = (ReplyError 429 (SlowDown 1), db)"
    if "?last = Some created" "at_guard clk = created + 9 * 60000"
  proof -
    have "cooldownWait (at_guard clk) ?last = Some 1"
      using that by (simp add: cooldownWait_def minutesBetween_def)
    then show ?thesis
      using assms z by (simp add: reportPOST_def)
  qed
  have d: "fst (reportPOST cal faults clk db body) = ReplyOk
          \<and> tbl_reports (snd (reportPOST cal faults clk db body)) =
              tbl_reports db @
                [\<lparr>r_venue_id = b_venue_id body, r_status = b_status body,
                  r_line_outside = b_line_outside body, r_device_id = b_device_id body,
                  r_created_at = at_insert clk\<rparr>]"
    if "?last = Some created" "at_guard clk = created + 11 * 60000"
      "countToday (tbl_reports db) (b_device_id body) (startOfDay cal (at_daycap clk)) < 20"
      "faults CountToday = None" "faults InsertReport = None"
      "faults SelectBaseline = None" "faults UpsertBaseline = None"
  proof -
    have "cooldownWait (at_guard clk) ?last = None"
      using that(1,2) by (simp add: cooldownWait_def minutesBetween_def)
    then show ?thesis
      using assms z that(3-7)
      by (simp add: reportPOST_def updateBaseline_def Let_def split: prod.splits)
  qed
  have e: "minutesBetween (at_guard clk) created = ageMinutes (at_guard clk) created"
    if "created \<le> at_guard clk"
    using that by (simp add: minutesBetween_def ageMinutes_def)
  show ?thesis
    using a b c d e by blast
qed

theorem reportPOST_cooldown_witness:
  "fst (reportPOST utcCalendar noFaults (clockAt 0) emptyStore
          \<lparr>b_venue_id = ''v1'', b_status = 2, b_line_outside = False, b_device_id = ''d1''\<rparr>)
     = ReplyOk
   \<and> reportPOST utcCalendar noFaults (clockAt 540000)
        (snd (reportPOST utcCalendar noFaults (clockAt 0) emptyStore
          \<lparr>b_venue_id = ''v1'', b_status = 2, b_line_outside = False, b_device_id = ''d1''\<rparr>))
        \<lparr>b_venue_id = ''v1'', b_status = 2, b_line_outside = False, b_device_id = ''d1''\<rparr>
     = (ReplyError 429 (SlowDown 1),
        snd (reportPOST utcCalendar noFaults (clockAt 0) emptyStore
          \<lparr>b_venue_id = ''v1'', b_status = 2, b_line_outside = False, b_device_id = ''d1''\<rparr>))
   \<and> fst (reportPOST utcCalendar noFaults (clockAt 660000)
        (snd (reportPOST utcCalendar noFaults (clockAt 0) emptyStore
          \<lparr>b_venue_id = ''v1'', b_status = 2, b_line_outside = False, b_device_id = ''d1''\<rparr>))
        \<lparr>b_venue_id = ''v1'', b_status = 2, b_line_outside = False, b_device_id = ''d1''\<rparr>)
     = ReplyOk"
proof -
  let ?body = "\<lparr>b_venue_id = ''v1'', b_status = 2, b_line_outside = False, b_device_id = ''d1''\<rparr>"
  let ?db1 = "snd (reportPOST utcCalendar noFaults (clockAt 0) emptyStore ?body)"
  have first: "fst (reportPOST utcCalendar noFaults (clockAt 0) emptyStore ?body) = ReplyOk"
    by (simp add: reportPOST_def updateBaseline_def emptyStore_def noFaults_def clockAt_def
        utcCalendar_def lastReportAt_def cooldownWait_def countToday_def Let_def)
  have rows: "tbl_reports ?db1 =
      [\<lparr>r_venue_id = ''v1'', r_status = 2, r_line_outside = False, r_device_id = ''d1'',
        r_created_at = 0\<rparr>]"
    by (simp add: reportPOST_def updateBaseline_def emptyStore_def noFaults_def clockAt_def
        utcCalendar_def lastReportAt_def cooldownWait_def countToday_def Let_def)
  have newest: "lastReportAt (tbl_reports ?db1) (b_venue_id ?body) (b_device_id ?body) = Some 0"
    by (simp add: rows lastReportAt_def)
  have v: "b_venue_id ?body \<noteq> []" "b_device_id ?body \<noteq> []" "b_status ?body \<in> {1, 2, 3, 4}"
    "noFaults SelectLastReport = None"
    by (simp_all add: noFaults_def)
  have cap: "countToday (tbl_reports ?db1) (b_device_id ?body)
      (startOfDay utcCalendar (at_daycap (clockAt 660000))) < 20"
    by (simp add: rows countToday_def)
  have nine: "at_guard (clockAt 540000) = 0 + 9 * 60000"
    and eleven: "at_guard (clockAt 660000) = 0 + 11 * 60000"
    by (simp_all add: clockAt_def)
  have nf: "noFaults CountToday = None" "noFaults InsertReport = None"
    "noFaults SelectBaseline = None" "noFaults UpsertBaseline = None"
    by (simp_all add: noFaults_def)
  have second: "reportPOST utcCalendar noFaults (clockAt 540000) ?db1 ?body
      = (ReplyError 429 (SlowDown 1), ?db1)"
    using reportPOST_cooldown [where body = ?body and faults = noFaults and db = ?db1
        and clk = "clockAt 540000" and created = 0 and cal = utcCalendar, OF v]
      newest nine by blast
  have third: "fst (reportPOST utcCalendar noFaults (clockAt 660000) ?db1 ?body) = ReplyOk"
    using reportPOST_cooldown [where body = ?body and faults = noFaults and db = ?db1
        and clk = "clockAt 660000" and created = 0 and cal = utcCalendar, OF v]
      newest eleven cap nf by blast
  show ?thesis
    using first second third by blast
qed

lemma nextBaseline_ok:
  assumes s: "1 \<le> s" "s \<le> 4"
    and row: "\<forall>b. row = Some b \<longrightarrow> baselineOk b"
  shows "baselineOk (nextBaseline row s)"
proof (cases row)
  case None
  then show ?thesis
    using s by (simp add: nextBaseline_def baselineOk_def)
next
  case (Some b)
  let ?m = "mean_score b" and ?n = "real_of_int (sample_n b)"
  have ok: "1 \<le> ?m" "?m \<le> 4" "0 \<le> ?n"
    using row Some by (auto simp: baselineOk_def)
  have lo: "?n \<le> ?m * ?n"
    using mult_right_mono [of 1 ?m ?n] ok by simp
  have hi: "?m * ?n \<le> 4 * ?n"
    using mult_right_mono [of ?m 4 ?n] ok by simp
  have pos: "0 < ?n + 1" using ok by simp
  have sr: "1 \<le> real_of_int s" "real_of_int s \<le> 4" using s by auto
  have "1 \<le> (?m * ?n + real_of_int s) / (?n + 1)"
    using lo sr pos by (simp add: le_divide_eq)
  moreover have "(?m * ?n + real_of_int s) / (?n + 1) \<le> 4"
    using hi sr pos by (simp add: divide_le_eq)
  moreover have "0 \<le> sample_n b + 1"
    using row Some by (auto simp: baselineOk_def)
  ultimately show ?thesis
    using Some by (simp add: nextBaseline_def baselineOk_def Let_def)
qed

lemma updateBaseline_cases:
  "updateBaseline cal faults clk db v s =
     (ReplyOk, db\<lparr>tbl_venue_baselines :=
        (tbl_venue_baselines db)((v, getDowHourDetroit cal (at_bucket clk)) \<mapsto>
           nextBaseline (tbl_venue_baselines db (v, getDowHourDetroit cal (at_bucket clk))) s)\<rparr>)
   \<or> (\<exists>e. updateBaseline cal faults clk db v s = (ReplyError 500 e, db))"
  by (cases "getDowHourDetroit cal (at_bucket clk)")
    (auto simp: updateBaseline_def Let_def split: option.splits)

lemma reportPOST_baselines_cases:
  "(fst (reportPOST cal faults clk db body) = ReplyOk
      \<and> b_status body \<in> {1, 2, 3, 4}
      \<and> tbl_venue_baselines (snd (reportPOST cal faults clk db body)) =
          (tbl_venue_baselines db)((b_venue_id body, getDowHourDetroit cal (at_bucket clk)) \<mapsto>
             nextBaseline (tbl_venue_baselines db (b_venue_id body, getDowHourDetroit cal (at_bucket clk)))
               (b_status body)))
   \<or> ((\<exists>c e. fst (reportPOST cal faults clk db body) = ReplyError c e)
      \<and> tbl_venue_baselines (snd (reportPOST cal faults clk db body)) = tbl_venue_baselines db)"
proof -
  let ?db' = "db\<lparr>tbl_reports := tbl_reports db @
                    [\<lparr>r_venue_id = b_venue_id body, r_status = b_status body,
                      r_line_outside = b_line_outside body, r_device_id = b_device_id body,
                      r_created_at = at_insert clk\<rparr>]\<rparr>"
  have u: "updateBaseline cal faults clk ?db' (b_venue_id body) (b_status body) =
     (ReplyOk, ?db'\<lparr>tbl_venue_baselines :=
        (tbl_venue_baselines ?db')((b_venue_id body, getDowHourDetroit cal (at_bucket clk)) \<mapsto>
           nextBaseline (tbl_venue_baselines ?db' (b_venue_id body, getDowHourDetroit cal (at_bucket clk)))
             (b_status body))\<rparr>)
   \<or> (\<exists>e. updateBaseline cal faults clk ?db' (b_venue_id body) (b_status body) = (ReplyError 500 e, ?db'))"
    by (rule updateBaseline_cases)
  show ?thesis
    unfolding reportPOST_def
    using u by (auto split: option.splits)
qed


text \<open>
  C5. When the route accepts a report (its status is then in {1,2,3,4}), the bucket of
  the venue and the (day, hour) read is set to \<open>mean' = (mean * n + status) / (n + 1)\<close>,
  \<open>n' = n + 1\<close>, from the row stored or from \<open>mean = 2.0\<close>, \<open>n = 0\<close> when the bucket is
  unseen, and no other bucket changes. Whatever the answer of the route, buckets with
  means in [1,4] and counts at least 0 stay so, and no count of any key decreases.
\<close>

theorem reportPOST_baseline:
  "(fst (reportPOST cal faults clk db body) = ReplyOk \<longrightarrow>
       b_status body \<in> {1, 2, 3, 4}
       \<and> tbl_venue_baselines (snd (reportPOST cal faults clk db body)) =
           (tbl_venue_baselines db)((b_venue_id body, getDowHourDetroit cal (at_bucket clk)) \<mapsto>
              nextBaseline (tbl_venue_baselines db (b_venue_id body, getDowHourDetroit cal (at_bucket clk)))
                (b_status body)))
   \<and> nextBaseline None s = \<lparr>mean_score = (2.0 * 0 + real_of_int s) / (0 + 1), sample_n = 0 + 1\<rparr>
   \<and> nextBaseline (Some b) s =
       \<lparr>mean_score = (mean_score b * real_of_int (sample_n b) + real_of_int s)
                        / (real_of_int (sample_n b) + 1),
        sample_n = sample_n b + 1\<rparr>
   \<and> (baselinesOk (tbl_venue_baselines db) \<longrightarrow>
        baselinesOk (tbl_venue_baselines (snd (reportPOST cal faults clk db body))))
   \<and> samples (tbl_venue_baselines db) k
        \<le> samples (tbl_venue_baselines (snd (reportPOST cal faults clk db body))) k"
proof -
  let ?B = "tbl_venue_baselines db"
  let ?B' = "tbl_venue_baselines (snd (reportPOST cal faults clk db body))"
  let ?key = "(b_venue_id body, getDowHourDetroit cal (at_bucket clk))"
  note cases = reportPOST_baselines_cases [of cal faults clk db body]
  have upd: "fst (reportPOST cal faults clk db body) = ReplyOk \<longrightarrow>
       b_status body \<in> {1, 2, 3, 4}
       \<and> ?B' = ?B(?key \<mapsto> nextBaseline (?B ?key) (b_status body))"
    using cases by auto
  have seed: "nextBaseline None s =
      \<lparr>mean_score = (2.0 * 0 + real_of_int s) / (0 + 1), sample_n = 0 + 1\<rparr>"
    by (simp add: nextBaseline_def)
  have step: "nextBaseline (Some b) s =
       \<lparr>mean_score = (mean_score b * real_of_int (sample_n b) + real_of_int s)
                        / (real_of_int (sample_n b) + 1),
        sample_n = sample_n b + 1\<rparr>"
    by (simp add: nextBaseline_def Let_def)
  have inv: "baselinesOk ?B'" if ok: "baselinesOk ?B"
  proof -
    from cases show ?thesis
    proof
      assume a: "fst (reportPOST cal faults clk db body) = ReplyOk
        \<and> b_status body \<in> {1, 2, 3, 4}
        \<and> ?B' = ?B(?key \<mapsto> nextBaseline (?B ?key) (b_status body))"
      then have st: "1 \<le> b_status body" "b_status body \<le> 4" by auto
      have "\<forall>b. ?B ?key = Some b \<longrightarrow> baselineOk b"
        using ok unfolding baselinesOk_def by blast
      then have "baselineOk (nextBaseline (?B ?key) (b_status body))"
        using nextBaseline_ok [OF st] by blast
      then show ?thesis
        using a ok by (auto simp: baselinesOk_def)
    next
      assume "(\<exists>c e. fst (reportPOST cal faults clk db body) = ReplyError c e) \<and> ?B' = ?B"
      then show ?thesis using ok by simp
    qed
  qed
  have mono: "samples ?B k \<le> samples ?B' k"
  proof -
    from cases show ?thesis
    proof
      assume a: "fst (reportPOST cal faults clk db body) = ReplyOk
        \<and> b_status body \<in> {1, 2, 3, 4}
        \<and> ?B' = ?B(?key \<mapsto> nextBaseline (?B ?key) (b_status body))"
      then have B': "?B' = ?B(?key \<mapsto> nextBaseline (?B ?key) (b_status body))" by simp
      show ?thesis
        unfolding B'
        by (cases "?B ?key") (simp_all add: samples_def nextBaseline_def Let_def)
    next
      assume "(\<exists>c e. fst (reportPOST cal faults clk db body) = ReplyError c e) \<and> ?B' = ?B"
      then show ?thesis by simp
    qed
  qed
  show ?thesis
    using upd seed step inv mono by blast
qed

theorem reportPOST_baseline_witness:
  "fst (reportPOST utcCalendar noFaults (clockAt 0) emptyStore
          \<lparr>b_venue_id = ''v1'', b_status = 3, b_line_outside = False, b_device_id = ''d1''\<rparr>)
     = ReplyOk
   \<and> tbl_venue_baselines (snd (reportPOST utcCalendar noFaults (clockAt 0) emptyStore
          \<lparr>b_venue_id = ''v1'', b_status = 3, b_line_outside = False, b_device_id = ''d1''\<rparr>))
        (''v1'', 4, 0) = Some \<lparr>mean_score = 3, sample_n = 1\<rparr>
   \<and> baselinesOk (tbl_venue_baselines emptyStore)
   \<and> baselinesOk (tbl_venue_baselines (snd (reportPOST utcCalendar noFaults (clockAt 0) emptyStore
          \<lparr>b_venue_id = ''v1'', b_status = 3, b_line_outside = False, b_device_id = ''d1''\<rparr>)))"
proof -
  let ?body = "\<lparr>b_venue_id = ''v1'', b_status = 3, b_line_outside = False, b_device_id = ''d1''\<rparr>"
  have first: "fst (reportPOST utcCalendar noFaults (clockAt 0) emptyStore ?body) = ReplyOk"
    by (simp add: reportPOST_def updateBaseline_def emptyStore_def noFaults_def clockAt_def
        utcCalendar_def lastReportAt_def cooldownWait_def countToday_def Let_def)
  have ok0: "baselinesOk (tbl_venue_baselines emptyStore)"
    by (simp add: baselinesOk_def emptyStore_def)
  have key: "(b_venue_id ?body, getDowHourDetroit utcCalendar (at_bucket (clockAt 0))) = (''v1'', 4, 0)"
    by (simp add: utcCalendar_def clockAt_def)
  have old: "tbl_venue_baselines emptyStore (''v1'', 4, 0) = None"
    by (simp add: emptyStore_def)
  note inst = reportPOST_baseline [of utcCalendar noFaults "clockAt 0" emptyStore ?body 3
      "\<lparr>mean_score = 2, sample_n = 0\<rparr>" "(''v1'', 4, 0)"]
  from inst first have
    "tbl_venue_baselines (snd (reportPOST utcCalendar noFaults (clockAt 0) emptyStore ?body)) =
       (tbl_venue_baselines emptyStore)((b_venue_id ?body,
           getDowHourDetroit utcCalendar (at_bucket (clockAt 0))) \<mapsto>
         nextBaseline (tbl_venue_baselines emptyStore (b_venue_id ?body,
           getDowHourDetroit utcCalendar (at_bucket (clockAt 0)))) (b_status ?body))"
    by blast
  then have row: "tbl_venue_baselines (snd (reportPOST utcCalendar noFaults (clockAt 0) emptyStore ?body))
      (''v1'', 4, 0) = Some \<lparr>mean_score = 3, sample_n = 1\<rparr>"
    unfolding key old by (simp add: nextBaseline_def)
  from inst ok0 have
    "baselinesOk (tbl_venue_baselines (snd (reportPOST utcCalendar noFaults (clockAt 0) emptyStore ?body)))"
    by blast
  then show ?thesis
    using first row ok0 by blast
qed

subsection \<open>The alert runner\<close>

lemma processSubscription_cooldown:
  "inCooldown (at_loop clk) sub \<Longrightarrow> processSubscription faults clk vm rbv st sub = st"
  by (simp add: processSubscription_def)

lemma alertLoop_skips_cooldown:
  "alertLoop faults clk vm rbv st subs =
     alertLoop faults clk vm rbv st (filter (\<lambda>s. \<not> inCooldown (at_loop clk) s) subs)"
  by (induction subs arbitrary: st) (simp_all add: processSubscription_cooldown)

lemma processSubscription_fires:
  assumes "\<not> inCooldown (at_loop clk) sub"
    and "shouldTrigger (sub_threshold sub)
           (labelToNumber (labelFromScore (computeDecayedScore (at_score clk (sub_id sub))
              (case rbv (sub_venue_id sub) of None \<Rightarrow> [] | Some a \<Rightarrow> a))))"
  shows "processSubscription faults clk vm rbv st sub =
     \<lparr>run_subscriptions =
        setLastTriggered faults (sub_id sub) (at_stamp clk (sub_id sub)) (run_subscriptions st),
      run_alerts = run_alerts st @
        [(case vm (sub_venue_id sub) of None \<Rightarrow> ''Unknown venue'' | Some nm \<Rightarrow> nm,
          labelFromScore (computeDecayedScore (at_score clk (sub_id sub))
              (case rbv (sub_venue_id sub) of None \<Rightarrow> [] | Some a \<Rightarrow> a)),
          sub_device_id sub)],
      run_triggered = run_triggered st + 1\<rparr>"
  using assms by (simp add: processSubscription_def Let_def)

lemma processSubscription_alerts_grow:
  "\<exists>more. run_alerts (processSubscription faults clk vm rbv st sub) = run_alerts st @ more
     \<and> run_triggered (processSubscription faults clk vm rbv st sub) = run_triggered st + length more"
  by (simp add: processSubscription_def Let_def)

lemma alertLoop_alerts_grow:
  "\<exists>more. run_alerts (alertLoop faults clk vm rbv st subs) = run_alerts st @ more
     \<and> run_triggered (alertLoop faults clk vm rbv st subs) = run_triggered st + length more"
proof (induction subs arbitrary: st)
  case Nil
  then show ?case by simp
next
  case (Cons sub subs)
  obtain m1 where m1: "run_alerts (processSubscription faults clk vm rbv st sub) = run_alerts st @ m1"
    "run_triggered (processSubscription faults clk vm rbv st sub) = run_triggered st + length m1"
    using processSubscription_alerts_grow by blast
  obtain m2 where m2:
    "run_alerts (alertLoop faults clk vm rbv (processSubscription faults clk vm rbv st sub) subs)
       = run_alerts (processSubscription faults clk vm rbv st sub) @ m2"
    "run_triggered (alertLoop faults clk vm rbv (processSubscription faults clk vm rbv st sub) subs)
       = run_triggered (processSubscription faults clk vm rbv st sub) + length m2"
    using Cons.IH by blast
  show ?case
    using m1 m2 by (intro exI [of _ "m1 @ m2"]) simp
qed

lemma alertLoop_fires:
  assumes "sub \<in> set subs" "\<not> inCooldown (at_loop clk) sub"
    and "shouldTrigger (sub_threshold sub)
           (labelToNumber (labelFromScore (computeDecayedScore (at_score clk (sub_id sub))
              (case rbv (sub_venue_id sub) of None \<Rightarrow> [] | Some a \<Rightarrow> a))))"
  shows "(case vm (sub_venue_id sub) of None \<Rightarrow> ''Unknown venue'' | Some nm \<Rightarrow> nm,
          labelFromScore (computeDecayedScore (at_score clk (sub_id sub))
              (case rbv (sub_venue_id sub) of None \<Rightarrow> [] | Some a \<Rightarrow> a)),
          sub_device_id sub) \<in> set (run_alerts (alertLoop faults clk vm rbv st subs))"
  using assms(1)
proof (induction subs arbitrary: st)
  case Nil
  then show ?case by simp
next
  case (Cons x subs)
  show ?case
  proof (cases "x = sub")
    case True
    let ?st' = "processSubscription faults clk vm rbv st sub"
    obtain more where "run_alerts (alertLoop faults clk vm rbv ?st' subs) = run_alerts ?st' @ more"
      using alertLoop_alerts_grow by blast
    then show ?thesis
      using True processSubscription_fires
        [where clk = clk and sub = sub and rbv = rbv and faults = faults and vm = vm and st = st,
          OF assms(2,3)] by simp
  next
    case False
    then show ?thesis using Cons by simp
  qed
qed

lemma groupReports_other_venue:
  "\<forall>r\<in>set rows. r_venue_id r \<noteq> v \<Longrightarrow> groupReports rows m v = m v"
  by (induction rows arbitrary: m) (auto simp: Let_def)

lemma recentReports_subset:
  "r \<in> set (recentReports rows ids since) \<Longrightarrow>
     r \<in> set rows \<and> r_venue_id r \<in> set ids \<and> since \<le> r_created_at r"
proof -
  assume "r \<in> set (recentReports rows ids since)"
  then have "r \<in> set (sort_key (\<lambda>r. - r_created_at r)
          (filter (\<lambda>r. r_venue_id r \<in> set ids \<and> r_created_at r \<ge> since) rows))"
    unfolding recentReports_def by (rule in_set_takeD)
  then show ?thesis by simp
qed

lemma computeDecayedScore_empty: "computeDecayedScore t [] = 2"
  by (simp add: computeDecayedScore_def)


lemma alertsRunPOST_all_cooling:
  assumes "\<forall>s\<in>set (tbl_alert_subscriptions db). sub_active s \<longrightarrow> inCooldown (at_loop clk) s"
  shows "snd (alertsRunPOST faults clk db) = ([], db)"
proof -
  have "filter (\<lambda>s. \<not> inCooldown (at_loop clk) s) (filter sub_active (tbl_alert_subscriptions db)) = []"
    using assms by (auto simp: filter_empty_conv)
  then have loop: "alertLoop faults clk vm rbv st (filter sub_active (tbl_alert_subscriptions db)) = st"
    for vm rbv st
    using alertLoop_skips_cooldown [of faults clk vm rbv st "filter sub_active (tbl_alert_subscriptions db)"]
    by simp
  show ?thesis
    by (simp add: alertsRunPOST_def Let_def loop split: option.splits)
qed

text \<open>
  C4. A subscription whose \<open>last_triggered_at\<close> is set and less than 60 minutes before
  the reading \<open>now\<close> of the run is passed over: its turn of the loop changes nothing (no
  alert, no count, no write), the loop gives what it gives without such subscriptions,
  and a run whose active subscriptions are all in cooldown alerts nobody and leaves the
  store as it was. At \<open>now - 59 min\<close> the turn changes nothing; at \<open>now - 61 min\<close> the
  subscription is out of cooldown and fires when its threshold condition holds.
\<close>

theorem alertsRun_cooldown:
  "(sub_last_triggered_at sub = Some lastTriggered \<and> at_loop clk - lastTriggered < 60 * 60000 \<longrightarrow>
       inCooldown (at_loop clk) sub \<and> processSubscription faults clk vm rbv st sub = st)
   \<and> alertLoop faults clk vm rbv st subs =
       alertLoop faults clk vm rbv st (filter (\<lambda>s. \<not> inCooldown (at_loop clk) s) subs)
   \<and> ((\<forall>s\<in>set (tbl_alert_subscriptions db). sub_active s \<longrightarrow> inCooldown (at_loop clk) s) \<longrightarrow>
        snd (alertsRunPOST faults clk db) = ([], db))
   \<and> (sub_last_triggered_at sub = Some (at_loop clk - 59 * 60000) \<longrightarrow>
        processSubscription faults clk vm rbv st sub = st)
   \<and> (sub_last_triggered_at sub = Some (at_loop clk - 61 * 60000) \<longrightarrow>
        \<not> inCooldown (at_loop clk) sub
        \<and> (shouldTrigger (sub_threshold sub)
              (labelToNumber (labelFromScore (computeDecayedScore (at_score clk (sub_id sub))
                 (case rbv (sub_venue_id sub) of None \<Rightarrow> [] | Some a \<Rightarrow> a)))) \<longrightarrow>
            processSubscription faults clk vm rbv st sub =
              \<lparr>run_subscriptions =
                 setLastTriggered faults (sub_id sub) (at_stamp clk (sub_id sub)) (run_subscriptions st),
               run_alerts = run_alerts st @
                 [(case vm (sub_venue_id sub) of None \<Rightarrow> ''Unknown venue'' | Some nm \<Rightarrow> nm,
                   labelFromScore (computeDecayedScore (at_score clk (sub_id sub))
                     (case rbv (sub_venue_id sub) of None \<Rightarrow> [] | Some a \<Rightarrow> a)),
                   sub_device_id sub)],
               run_triggered = run_triggered st + 1\<rparr>))"
proof -
  have a: "inCooldown (at_loop clk) sub \<and> processSubscription faults clk vm rbv st sub = st"
    if "sub_last_triggered_at sub = Some lastTriggered" "at_loop clk - lastTriggered < 60 * 60000"
  proof -
    have "real_of_int (at_loop clk - lastTriggered) < real_of_int (60 * 60000)"
      using that(2) by (simp only: of_int_less_iff)
    then have "inCooldown (at_loop clk) sub"
      using that(1) by (simp add: inCooldown_def)
    then show ?thesis
      by (simp add: processSubscription_cooldown)
  qed
  have c: "processSubscription faults clk vm rbv st sub = st"
    if "sub_last_triggered_at sub = Some (at_loop clk - 59 * 60000)"
  proof -
    have "inCooldown (at_loop clk) sub"
      using that by (simp add: inCooldown_def)
    then show ?thesis by (simp add: processSubscription_cooldown)
  qed
  have d: "\<not> inCooldown (at_loop clk) sub"
    if "sub_last_triggered_at sub = Some (at_loop clk - 61 * 60000)"
    using that by (simp add: inCooldown_def)
  show ?thesis
    using a c d alertLoop_skips_cooldown [of faults clk vm rbv st subs]
      alertsRunPOST_all_cooling [of db clk faults]
      processSubscription_fires [where clk = clk and sub = sub and rbv = rbv and faults = faults
        and vm = vm and st = st]
    by blast
qed

theorem alertsRun_cooldown_witness:
  "processSubscription noFaults (runClockAt 7200000) Map.empty Map.empty
      \<lparr>run_subscriptions = [], run_alerts = [], run_triggered = 0\<rparr>
      \<lparr>sub_id = ''s1'', sub_venue_id = ''v1'', sub_device_id = ''d1'', sub_threshold = 2,
        sub_active = True, sub_created_at = 0, sub_last_triggered_at = Some 3660000\<rparr>
     = \<lparr>run_subscriptions = [], run_alerts = [], run_triggered = 0\<rparr>
   \<and> processSubscription noFaults (runClockAt 7200000) Map.empty Map.empty
      \<lparr>run_subscriptions = [], run_alerts = [], run_triggered = 0\<rparr>
      \<lparr>sub_id = ''s1'', sub_venue_id = ''v1'', sub_device_id = ''d1'', sub_threshold = 2,
        sub_active = True, sub_created_at = 0, sub_last_triggered_at = Some 3540000\<rparr>
     = \<lparr>run_subscriptions = [], run_alerts = [(''Unknown venue'', Medium, ''d1'')],
        run_triggered = 1\<rparr>"
proof -
  let ?st = "\<lparr>run_subscriptions = [], run_alerts = [], run_triggered = 0\<rparr>"
  let ?s59 = "\<lparr>sub_id = ''s1'', sub_venue_id = ''v1'', sub_device_id = ''d1'', sub_threshold = 2,
        sub_active = True, sub_created_at = 0, sub_last_triggered_at = Some 3660000\<rparr>"
  let ?s61 = "\<lparr>sub_id = ''s1'', sub_venue_id = ''v1'', sub_device_id = ''d1'', sub_threshold = 2,
        sub_active = True, sub_created_at = 0, sub_last_triggered_at = Some 3540000\<rparr>"
  have h59: "sub_last_triggered_at ?s59 = Some (at_loop (runClockAt 7200000) - 59 * 60000)"
    by (simp add: runClockAt_def)
  have h61: "sub_last_triggered_at ?s61 = Some (at_loop (runClockAt 7200000) - 61 * 60000)"
    by (simp add: runClockAt_def)
  have trig: "shouldTrigger (sub_threshold ?s61)
      (labelToNumber (labelFromScore (computeDecayedScore (at_score (runClockAt 7200000) (sub_id ?s61))
         (case Map.empty (sub_venue_id ?s61) of None \<Rightarrow> [] | Some a \<Rightarrow> a))))"
    by (simp add: shouldTrigger_def computeDecayedScore_def labelFromScore_def)
  have lab: "labelFromScore (computeDecayedScore (at_score (runClockAt 7200000) (sub_id ?s61))
         (case Map.empty (sub_venue_id ?s61) of None \<Rightarrow> [] | Some a \<Rightarrow> a)) = Medium"
    by (simp add: computeDecayedScore_def labelFromScore_def)
  have first: "processSubscription noFaults (runClockAt 7200000) Map.empty Map.empty ?st ?s59 = ?st"
    using alertsRun_cooldown [where sub = ?s59 and clk = "runClockAt 7200000" and faults = noFaults
        and vm = Map.empty and rbv = Map.empty and st = ?st] h59
    by blast
  have "processSubscription noFaults (runClockAt 7200000) Map.empty Map.empty ?st ?s61 =
      \<lparr>run_subscriptions =
         setLastTriggered noFaults (sub_id ?s61) (at_stamp (runClockAt 7200000) (sub_id ?s61))
           (run_subscriptions ?st),
       run_alerts = run_alerts ?st @
         [(case Map.empty (sub_venue_id ?s61) of None \<Rightarrow> ''Unknown venue'' | Some nm \<Rightarrow> nm,
           labelFromScore (computeDecayedScore (at_score (runClockAt 7200000) (sub_id ?s61))
             (case Map.empty (sub_venue_id ?s61) of None \<Rightarrow> [] | Some a \<Rightarrow> a)),
           sub_device_id ?s61)],
       run_triggered = run_triggered ?st + 1\<rparr>"
    using alertsRun_cooldown [where sub = ?s61 and clk = "runClockAt 7200000" and faults = noFaults
        and vm = Map.empty and rbv = Map.empty and st = ?st] h61 trig
    by blast
  then have second: "processSubscription noFaults (runClockAt 7200000) Map.empty Map.empty ?st ?s61 =
      \<lparr>run_subscriptions = [], run_alerts = [(''Unknown venue'', Medium, ''d1'')], run_triggered = 1\<rparr>"
    unfolding lab by (simp add: setLastTriggered_def noFaults_def)
  show ?thesis
    using first second by blast
qed

text \<open>
  C10. With the three selects of the run answering, an active subscription with
  threshold 2 that is out of cooldown, for a venue none of whose reports lies in the
  trailing 3-hour window, is alerted with the label Medium (the score of no reports is
  2), and the run counts at least one trigger.
\<close>

theorem alertsRunPOST_no_reports_triggers:
  assumes sub: "sub \<in> set (tbl_alert_subscriptions db)" "sub_active sub"
      "\<not> inCooldown (at_loop clk) sub" "sub_threshold sub = 2"
    and none: "\<forall>r\<in>set (tbl_reports db).
        r_venue_id r = sub_venue_id sub \<longrightarrow> r_created_at r < at_since clk - 3 * 60 * 60 * 1000"
    and ok: "faults SelectActive = None" "faults SelectVenues = None" "faults SelectReports = None"
  shows
    "computeDecayedScore (at_score clk (sub_id sub)) [] = 2
     \<and> labelFromScore 2 = Medium \<and> labelToNumber Medium = 2
     \<and> (\<exists>venueName. (venueName, Medium, sub_device_id sub)
           \<in> set (fst (snd (alertsRunPOST faults clk db))))
     \<and> (\<exists>processed triggered.
           fst (alertsRunPOST faults clk db) = ReplyRun processed triggered \<and> 1 \<le> triggered)"
proof -
  let ?subs = "filter sub_active (tbl_alert_subscriptions db)"
  let ?ids = "remdups (map sub_venue_id ?subs)"
  let ?vm = "fold (\<lambda>v m. m(v_id v \<mapsto> v_name v))
              (filter (\<lambda>v. v_id v \<in> set ?ids) (tbl_venues db)) Map.empty"
  let ?since = "at_since clk - 3 * 60 * 60 * 1000"
  let ?rbv = "groupReports (recentReports (tbl_reports db) ?ids ?since) Map.empty"
  let ?init = "\<lparr>run_subscriptions = tbl_alert_subscriptions db, run_alerts = [], run_triggered = 0\<rparr>"
  let ?st = "alertLoop faults clk ?vm ?rbv ?init ?subs"
  have mem: "sub \<in> set ?subs" using sub(1,2) by simp
  have ne: "length ?subs \<noteq> 0"
    using sub(1,2) by (auto simp: filter_empty_conv)
  have run: "alertsRunPOST faults clk db =
      (ReplyRun (length ?subs) (run_triggered ?st), run_alerts ?st,
       db\<lparr>tbl_alert_subscriptions := run_subscriptions ?st\<rparr>)"
    using ok ne by (simp add: alertsRunPOST_def Let_def)
  have "\<forall>r\<in>set (recentReports (tbl_reports db) ?ids ?since). r_venue_id r \<noteq> sub_venue_id sub"
    using none recentReports_subset [of _ "tbl_reports db" ?ids ?since] by fastforce
  then have empty: "?rbv (sub_venue_id sub) = None"
    using groupReports_other_venue [of _ "sub_venue_id sub" Map.empty] by simp
  have score: "computeDecayedScore (at_score clk (sub_id sub)) [] = 2"
    by (rule computeDecayedScore_empty)
  have lab: "labelFromScore 2 = Medium"
    by (simp add: labelFromScore_def)
  have trig: "shouldTrigger (sub_threshold sub)
      (labelToNumber (labelFromScore (computeDecayedScore (at_score clk (sub_id sub))
         (case ?rbv (sub_venue_id sub) of None \<Rightarrow> [] | Some a \<Rightarrow> a))))"
    unfolding empty option.case score lab
    by (simp add: sub(4) shouldTrigger_def)
  have "(case ?vm (sub_venue_id sub) of None \<Rightarrow> ''Unknown venue'' | Some nm \<Rightarrow> nm,
         labelFromScore (computeDecayedScore (at_score clk (sub_id sub))
            (case ?rbv (sub_venue_id sub) of None \<Rightarrow> [] | Some a \<Rightarrow> a)),
         sub_device_id sub) \<in> set (run_alerts ?st)"
    using alertLoop_fires [where sub = sub and subs = ?subs and clk = clk and rbv = ?rbv
        and vm = ?vm and faults = faults and st = ?init, OF mem sub(3) trig] .
  then have al: "(case ?vm (sub_venue_id sub) of None \<Rightarrow> ''Unknown venue'' | Some nm \<Rightarrow> nm,
         Medium, sub_device_id sub) \<in> set (run_alerts ?st)"
    by (simp only: empty option.case score lab)
  obtain more where more: "run_alerts ?st = run_alerts ?init @ more"
      "run_triggered ?st = run_triggered ?init + length more"
    using alertLoop_alerts_grow [of faults clk ?vm ?rbv ?init ?subs] by blast
  have "more \<noteq> []" using al more(1) by auto
  then have cnt: "1 \<le> run_triggered ?st"
    using more(2) by (cases more) simp_all
  have "\<exists>venueName. (venueName, Medium, sub_device_id sub) \<in> set (fst (snd (alertsRunPOST faults clk db)))"
    unfolding run using al by auto
  moreover have "\<exists>processed triggered.
           fst (alertsRunPOST faults clk db) = ReplyRun processed triggered \<and> 1 \<le> triggered"
    unfolding run using cnt by simp
  ultimately show ?thesis
    using score lab by simp
qed

theorem alertsRunPOST_no_reports_triggers_witness:
  "fst (alertsRunPOST noFaults (runClockAt 14400000)
      \<lparr>tbl_reports = [\<lparr>r_venue_id = ''v1'', r_status = 4, r_line_outside = False,
                        r_device_id = ''d2'', r_created_at = 0\<rparr>],
       tbl_venue_baselines = Map.empty,
       tbl_alert_subscriptions =
         [\<lparr>sub_id = ''s1'', sub_venue_id = ''v1'', sub_device_id = ''d1'', sub_threshold = 2,
           sub_active = True, sub_created_at = 0, sub_last_triggered_at = None\<rparr>],
       tbl_venues = [\<lparr>v_id = ''v1'', v_name = ''Ricks''\<rparr>]\<rparr>) = ReplyRun 1 1
   \<and> fst (snd (alertsRunPOST noFaults (runClockAt 14400000)
      \<lparr>tbl_reports = [\<lparr>r_venue_id = ''v1'', r_status = 4, r_line_outside = False,
                        r_device_id = ''d2'', r_created_at = 0\<rparr>],
       tbl_venue_baselines = Map.empty,
       tbl_alert_subscriptions =
         [\<lparr>sub_id = ''s1'', sub_venue_id = ''v1'', sub_device_id = ''d1'', sub_threshold = 2,
           sub_active = True, sub_created_at = 0, sub_last_triggered_at = None\<rparr>],
       tbl_venues = [\<lparr>v_id = ''v1'', v_name = ''Ricks''\<rparr>]\<rparr>)) = [(''Ricks'', Medium, ''d1'')]
   \<and> (\<exists>venueName. (venueName, Medium, ''d1'') \<in> set (fst (snd (alertsRunPOST noFaults (runClockAt 14400000)
      \<lparr>tbl_reports = [\<lparr>r_venue_id = ''v1'', r_status = 4, r_line_outside = False,
                        r_device_id = ''d2'', r_created_at = 0\<rparr>],
       tbl_venue_baselines = Map.empty,
       tbl_alert_subscriptions =
         [\<lparr>sub_id = ''s1'', sub_venue_id = ''v1'', sub_device_id = ''d1'', sub_threshold = 2,
           sub_active = True, sub_created_at = 0, sub_last_triggered_at = None\<rparr>],
       tbl_venues = [\<lparr>v_id = ''v1'', v_name = ''Ricks''\<rparr>]\<rparr>))))"
proof -
  let ?sub = "\<lparr>sub_id = ''s1'', sub_venue_id = ''v1'', sub_device_id = ''d1'', sub_threshold = 2,
           sub_active = True, sub_created_at = 0, sub_last_triggered_at = None\<rparr>"
  let ?db = "\<lparr>tbl_reports = [\<lparr>r_venue_id = ''v1'', r_status = 4, r_line_outside = False,
                        r_device_id = ''d2'', r_created_at = 0\<rparr>],
       tbl_venue_baselines = Map.empty,
       tbl_alert_subscriptions = [?sub],
       tbl_venues = [\<lparr>v_id = ''v1'', v_name = ''Ricks''\<rparr>]\<rparr>"
  have run: "alertsRunPOST noFaults (runClockAt 14400000) ?db =
      (ReplyRun 1 1, [(''Ricks'', Medium, ''d1'')],
       ?db\<lparr>tbl_alert_subscriptions := [?sub\<lparr>sub_last_triggered_at := Some 14400000\<rparr>]\<rparr>)"
    by (simp add: alertsRunPOST_def noFaults_def runClockAt_def recentReports_def
        processSubscription_def inCooldown_def computeDecayedScore_def labelFromScore_def
        shouldTrigger_def setLastTriggered_def Let_def)
  have h: "?sub \<in> set (tbl_alert_subscriptions ?db)" "sub_active ?sub"
      "\<not> inCooldown (at_loop (runClockAt 14400000)) ?sub" "sub_threshold ?sub = 2"
      "\<forall>r\<in>set (tbl_reports ?db).
        r_venue_id r = sub_venue_id ?sub \<longrightarrow>
        r_created_at r < at_since (runClockAt 14400000) - 3 * 60 * 60 * 1000"
      "noFaults SelectActive = None" "noFaults SelectVenues = None" "noFaults SelectReports = None"
    by (simp_all add: inCooldown_def runClockAt_def noFaults_def)
  have "\<exists>venueName. (venueName, Medium, sub_device_id ?sub)
           \<in> set (fst (snd (alertsRunPOST noFaults (runClockAt 14400000) ?db)))"
    using alertsRunPOST_no_reports_triggers [where sub = ?sub and db = ?db
        and clk = "runClockAt 14400000" and faults = noFaults, OF h]
    by blast
  then show ?thesis
    using run by simp
qed

subsection \<open>The subscribe route\<close>

lemma subscribePOST_active_row_unchanged:
  assumes body: "sb_venue_id body \<noteq> []" "sb_device_id body \<noteq> []" "sb_threshold body \<in> {1, 2}"
    and one: "filter (\<lambda>row. sub_active row)
        (rowsOfTriple (tbl_alert_subscriptions db) (sb_venue_id body) (sb_device_id body)
           (sb_threshold body)) = [row]"
    and ids: "distinct (map sub_id (tbl_alert_subscriptions db))"
    and ok: "faults SelectSubscription = None" "faults UpdateSubscription = None"
  shows "subscribePOST uniqueSubscription faults newId createdAt db body = (ReplyOk, db)"
proof -
  let ?tbl = "tbl_alert_subscriptions db"
  have f: "filter (\<lambda>row. sub_venue_id row = sb_venue_id body \<and> sub_device_id row = sb_device_id body
                      \<and> sub_threshold row = sb_threshold body \<and> sub_active row) ?tbl = [row]"
    using one by (simp add: rowsOfTriple_def conj_commute conj_left_commute)
  then have "row \<in> set (filter (\<lambda>row. sub_venue_id row = sb_venue_id body
        \<and> sub_device_id row = sb_device_id body
        \<and> sub_threshold row = sb_threshold body \<and> sub_active row) ?tbl)"
    by simp
  then have row: "row \<in> set ?tbl" "sub_active row"
    by simp_all
  have sel: "selectActiveSubscription ?tbl (sb_venue_id body) (sb_device_id body) (sb_threshold body)
      = Inr (Some (sub_id row))"
    by (simp add: selectActiveSubscription_def f)
  have same: "r = row" if "r \<in> set ?tbl" "sub_id r = sub_id row" for r
    using ids row(1) that by (meson distinct_map inj_onD)
  have "map (\<lambda>r. if sub_id r = sub_id row then r\<lparr>sub_active := True\<rparr> else r) ?tbl = map (\<lambda>r. r) ?tbl"
  proof (rule map_cong [OF refl])
    fix r assume "r \<in> set ?tbl"
    then show "(if sub_id r = sub_id row then r\<lparr>sub_active := True\<rparr> else r) = r"
      using same [of r] row(2) by auto
  qed
  then have upd: "map (\<lambda>r. if sub_id r = sub_id row then r\<lparr>sub_active := True\<rparr> else r) ?tbl = ?tbl"
    by simp
  have z: "sb_threshold body \<noteq> 0" using body(3) by auto
  show ?thesis
    using body z ok by (simp add: subscribePOST_def sel upd)
qed

lemma subscribePOST_new_triple:
  assumes body: "sb_venue_id body \<noteq> []" "sb_device_id body \<noteq> []" "sb_threshold body \<in> {1, 2}"
    and none: "rowsOfTriple (tbl_alert_subscriptions db) (sb_venue_id body) (sb_device_id body)
           (sb_threshold body) = []"
    and fresh: "newId \<notin> sub_id ` set (tbl_alert_subscriptions db)"
    and ok: "faults SelectSubscription = None" "faults InsertSubscription = None"
  shows "subscribePOST uniqueSubscription faults newId createdAt db body =
     (ReplyOk,
      db\<lparr>tbl_alert_subscriptions := tbl_alert_subscriptions db @
        [\<lparr>sub_id = newId, sub_venue_id = sb_venue_id body, sub_device_id = sb_device_id body,
          sub_threshold = sb_threshold body, sub_active = True, sub_created_at = createdAt,
          sub_last_triggered_at = None\<rparr>]\<rparr>)"
proof -
  let ?tbl = "tbl_alert_subscriptions db"
  have no: "\<forall>old\<in>set ?tbl. \<not> (sub_venue_id old = sb_venue_id body
      \<and> sub_device_id old = sb_device_id body \<and> sub_threshold old = sb_threshold body)"
    using none by (simp add: rowsOfTriple_def filter_empty_conv)
  then have f: "filter (\<lambda>row. sub_venue_id row = sb_venue_id body \<and> sub_device_id row = sb_device_id body
                      \<and> sub_threshold row = sb_threshold body \<and> sub_active row) ?tbl = []"
    by (auto simp: filter_empty_conv)
  have sel: "selectActiveSubscription ?tbl (sb_venue_id body) (sb_device_id body) (sb_threshold body)
      = Inr None"
    by (simp add: selectActiveSubscription_def f)
  have ins: "insertSubscription uniqueSubscription ?tbl
      \<lparr>sub_id = newId, sub_venue_id = sb_venue_id body, sub_device_id = sb_device_id body,
        sub_threshold = sb_threshold body, sub_active = True, sub_created_at = createdAt,
        sub_last_triggered_at = None\<rparr> =
      Inr (?tbl @ [\<lparr>sub_id = newId, sub_venue_id = sb_venue_id body, sub_device_id = sb_device_id body,
        sub_threshold = sb_threshold body, sub_active = True, sub_created_at = createdAt,
        sub_last_triggered_at = None\<rparr>])"
    using no fresh by (auto simp: insertSubscription_def)
  have z: "sb_threshold body \<noteq> 0" using body(3) by auto
  show ?thesis
    using body z ok by (simp add: subscribePOST_def sel ins)
qed

text \<open>
  C1, at the input where it fails. The table holds one row of the triple, inactive.
  With the constraint of the schema the insert is refused: the route answers 500 and
  the row stays inactive, so no row of the triple is active. Without the constraint a
  second row of the triple is inserted.
\<close>

theorem subscribePOST_inactive_row:
  "subscribePOST True noFaults ''s2'' 5000
      (emptyStore\<lparr>tbl_alert_subscriptions :=
         [\<lparr>sub_id = ''s1'', sub_venue_id = ''v1'', sub_device_id = ''d1'', sub_threshold = 2,
           sub_active = False, sub_created_at = 1000, sub_last_triggered_at = None\<rparr>]\<rparr>)
      \<lparr>sb_venue_id = ''v1'', sb_device_id = ''d1'', sb_threshold = 2\<rparr>
     = (ReplyError 500 DuplicateKey,
        emptyStore\<lparr>tbl_alert_subscriptions :=
         [\<lparr>sub_id = ''s1'', sub_venue_id = ''v1'', sub_device_id = ''d1'', sub_threshold = 2,
           sub_active = False, sub_created_at = 1000, sub_last_triggered_at = None\<rparr>]\<rparr>)
   \<and> rowsOfTriple (tbl_alert_subscriptions (snd (subscribePOST False noFaults ''s2'' 5000
      (emptyStore\<lparr>tbl_alert_subscriptions :=
         [\<lparr>sub_id = ''s1'', sub_venue_id = ''v1'', sub_device_id = ''d1'', sub_threshold = 2,
           sub_active = False, sub_created_at = 1000, sub_last_triggered_at = None\<rparr>]\<rparr>)
      \<lparr>sb_venue_id = ''v1'', sb_device_id = ''d1'', sb_threshold = 2\<rparr>))) ''v1'' ''d1'' 2
     = [\<lparr>sub_id = ''s1'', sub_venue_id = ''v1'', sub_device_id = ''d1'', sub_threshold = 2,
         sub_active = False, sub_created_at = 1000, sub_last_triggered_at = None\<rparr>,
        \<lparr>sub_id = ''s2'', sub_venue_id = ''v1'', sub_device_id = ''d1'', sub_threshold = 2,
         sub_active = True, sub_created_at = 5000, sub_last_triggered_at = None\<rparr>]"
  by (simp add: subscribePOST_def selectActiveSubscription_def insertSubscription_def
      rowsOfTriple_def emptyStore_def noFaults_def)

end
